theory Spec2Isabelle
  imports Main "HOL-Library.Word"
begin

unbundle bit_operations_syntax

section \<open>Raster images as the compositing code sees them\<close>

text \<open>
  \<^verbatim>\<open>cv2.imread\<close> (default flag) yields an array of shape (rows, cols, 3) of unsigned bytes in
  blue, green, red order, or \<^verbatim>\<open>None\<close>. An image is the list of its rows; a mask is the
  single-channel array that \<^verbatim>\<open>cv2.inRange\<close> returns.
\<close>

type_synonym u8 = "8 word"
type_synonym pixel = "u8 \<times> u8 \<times> u8"
type_synonym image = "pixel list list"
type_synonym mask = "u8 list list"
type_synonym bytes = "u8 list"

text \<open>
  The exceptions the program can raise: attribute access on \<^verbatim>\<open>None\<close>, \<^verbatim>\<open>cv2.error\<close>, and
  \<^verbatim>\<open>OSError\<close> (with its subclasses) from opening a file. \<open>DecodeError\<close> is the error kind the
  specification names for an image that does not decode; the program defines no such exception
  and no function below returns it.
\<close>

datatype error = AttributeError | CvError | OSError | DecodeError

text \<open>\<^verbatim>\<open>img.shape[0]\<close> and \<^verbatim>\<open>img.shape[1]\<close>.\<close>

definition shape0 :: "'a list list \<Rightarrow> nat" where
  "shape0 img = length img"

definition shape1 :: "'a list list \<Rightarrow> nat" where
  "shape1 img = (case img of [] \<Rightarrow> 0 | row # _ \<Rightarrow> length row)"

text \<open>What a successful decode returns: a non-empty rectangular grid.\<close>

definition valid_image :: "'a list list \<Rightarrow> bool" where
  "valid_image img = (img \<noteq> [] \<and> 0 < shape1 img \<and> list_all (\<lambda>row. length row = shape1 img) img)"

section \<open>The OpenCV operations used by the compositor\<close>

text \<open>
  The pixel-level colour conversion of \<^verbatim>\<open>cv2.cvtColor(_, cv2.COLOR_BGR2HSV)\<close> and the
  interpolation of \<^verbatim>\<open>cv2.resize\<close> belong to the library, not to this program: they are
  parameters. \<open>interp src (w, h) r c\<close> is the value that resizing \<open>src\<close> to width \<open>w\<close> and
  height \<open>h\<close> puts at row \<open>r\<close>, column \<open>c\<close>.
\<close>

type_synonym cvt = "pixel \<Rightarrow> pixel"
type_synonym interp = "image \<Rightarrow> nat \<times> nat \<Rightarrow> nat \<Rightarrow> nat \<Rightarrow> pixel"

text \<open>\<^verbatim>\<open>cv2.resize(src, (w, h))\<close>: the result has \<open>h\<close> rows of \<open>w\<close> pixels; a \<^verbatim>\<open>None\<close> source, an
  empty source or an empty target size raises \<^verbatim>\<open>cv2.error\<close>.\<close>

definition cv2_resize :: "interp \<Rightarrow> image option \<Rightarrow> nat \<times> nat \<Rightarrow> error + image" where
  "cv2_resize ip src dsize =
     (case src of
        None \<Rightarrow> Inl CvError
      | Some P \<Rightarrow>
          (case dsize of (w, h) \<Rightarrow>
             if shape0 P = 0 \<or> shape1 P = 0 \<or> w = 0 \<or> h = 0 then Inl CvError
             else Inr (map (\<lambda>r. map (\<lambda>c. ip P (w, h) r c) [0..<w]) [0..<h])))"

definition cv2_cvtColor :: "cvt \<Rightarrow> image \<Rightarrow> image" where
  "cv2_cvtColor cv src = map (map cv) src"

definition lower_green :: pixel where
  "lower_green = (35, 100, 100)"

definition upper_green :: pixel where
  "upper_green = (85, 255, 255)"

text \<open>\<^verbatim>\<open>cv2.inRange\<close>: 255 where every channel lies between the bounds, inclusively, else 0.\<close>

definition in_bounds :: "pixel \<Rightarrow> pixel \<Rightarrow> pixel \<Rightarrow> bool" where
  "in_bounds p lo hi =
     (case p of (h, s, v) \<Rightarrow> case lo of (lh, ls, lv) \<Rightarrow> case hi of (uh, us, uv) \<Rightarrow>
        lh \<le> h \<and> h \<le> uh \<and> ls \<le> s \<and> s \<le> us \<and> lv \<le> v \<and> v \<le> uv)"

definition cv2_inRange :: "image \<Rightarrow> pixel \<Rightarrow> pixel \<Rightarrow> mask" where
  "cv2_inRange src lo hi = map (map (\<lambda>p. if in_bounds p lo hi then 255 else 0)) src"

text \<open>\<^verbatim>\<open>cv2.bitwise_not\<close> on a mask: every byte is complemented.\<close>

definition cv2_bitwise_not :: "mask \<Rightarrow> mask" where
  "cv2_bitwise_not m = map (map (\<lambda>b. NOT b)) m"

definition px_and :: "pixel \<Rightarrow> pixel \<Rightarrow> pixel" where
  "px_and p q = (case p of (b1, g1, r1) \<Rightarrow> case q of (b2, g2, r2) \<Rightarrow> (b1 AND b2, g1 AND g2, r1 AND r2))"

definition masked_and_px :: "pixel \<Rightarrow> pixel \<Rightarrow> u8 \<Rightarrow> pixel" where
  "masked_and_px p q m = (if m \<noteq> 0 then px_and p q else (0, 0, 0))"

definition masked_and_row :: "pixel list \<Rightarrow> pixel list \<Rightarrow> u8 list \<Rightarrow> pixel list" where
  "masked_and_row ps qs ms = map (\<lambda>(p, q, m). masked_and_px p q m) (zip ps (zip qs ms))"

text \<open>\<^verbatim>\<open>cv2.bitwise_and(src1, src2, mask=m)\<close> into a fresh destination: the conjunction where the
  mask is non-zero, zero elsewhere; operands of different sizes raise \<^verbatim>\<open>cv2.error\<close>.\<close>

definition cv2_bitwise_and :: "image \<Rightarrow> image \<Rightarrow> mask \<Rightarrow> error + image" where
  "cv2_bitwise_and src1 src2 m =
     (if map length src1 = map length src2 \<and> map length src1 = map length m
      then Inr (map (\<lambda>(ps, qs, ms). masked_and_row ps qs ms) (zip src1 (zip src2 m)))
      else Inl CvError)"

text \<open>\<^verbatim>\<open>cv2.add\<close> on unsigned bytes saturates at 255.\<close>

definition sat_add :: "u8 \<Rightarrow> u8 \<Rightarrow> u8" where
  "sat_add a b = (if 255 < unat a + unat b then 255 else a + b)"

definition px_add :: "pixel \<Rightarrow> pixel \<Rightarrow> pixel" where
  "px_add p q = (case p of (b1, g1, r1) \<Rightarrow> case q of (b2, g2, r2) \<Rightarrow>
     (sat_add b1 b2, sat_add g1 g2, sat_add r1 r2))"

definition cv2_add :: "image \<Rightarrow> image \<Rightarrow> error + image" where
  "cv2_add src1 src2 =
     (if map length src1 = map length src2
      then Inr (map (\<lambda>(ps, qs). map (\<lambda>(p, q). px_add p q) (zip ps qs)) (zip src1 src2))
      else Inl CvError)"

section \<open>The compositor\<close>

text \<open>The chroma range in the words of the specification: hue in [35, 85], saturation in
  [100, 255] and value in [100, 255], bounds included, on unsigned bytes.\<close>

definition in_chroma_range :: "pixel \<Rightarrow> bool" where
  "in_chroma_range hsv =
     (case hsv of (h, s, v) \<Rightarrow>
        35 \<le> unat h \<and> unat h \<le> 85 \<and> 100 \<le> unat s \<and> unat s \<le> 255 \<and> 100 \<le> unat v \<and> unat v \<le> 255)"

text \<open>The per-pixel select of the specification: the photo pixel where the mask bit is set, the
  template pixel where it is not.\<close>

definition select_image :: "mask \<Rightarrow> image \<Rightarrow> image \<Rightarrow> image" where
  "select_image m T U =
     map (\<lambda>(ms, ts, us). map (\<lambda>(b, t, u). if b \<noteq> 0 then u else t) (zip ms (zip ts us)))
       (zip m (zip T U))"

text \<open>The masks of \<^verbatim>\<open>_combine_images\<close>, lines 127 to 131.\<close>

definition chroma_mask :: "cvt \<Rightarrow> image \<Rightarrow> mask" where
  "chroma_mask cv cover_template = cv2_inRange (cv2_cvtColor cv cover_template) lower_green upper_green"

definition chroma_mask_inv :: "cvt \<Rightarrow> image \<Rightarrow> mask" where
  "chroma_mask_inv cv cover_template = cv2_bitwise_not (chroma_mask cv cover_template)"

text \<open>
  The body of \<^verbatim>\<open>_combine_images\<close> after the two \<^verbatim>\<open>cv2.imread\<close> calls, on their results.
  Reading \<^verbatim>\<open>.shape\<close> of a \<^verbatim>\<open>None\<close> template raises \<^verbatim>\<open>AttributeError\<close>; every later call
  that raises ends the function with that error.
\<close>

definition combine_decoded :: "cvt \<Rightarrow> interp \<Rightarrow> image option \<Rightarrow> image option \<Rightarrow> error + image" where
  "combine_decoded cv ip user_image0 cover_template0 =
     (case cover_template0 of
        None \<Rightarrow> Inl AttributeError
      | Some cover_template \<Rightarrow>
          (case cv2_resize ip user_image0 (shape1 cover_template, shape0 cover_template) of
             Inl e \<Rightarrow> Inl e
           | Inr user_image \<Rightarrow>
               (let mask = chroma_mask cv cover_template;
                    mask_inv = chroma_mask_inv cv cover_template
                in case cv2_bitwise_and cover_template cover_template mask_inv of
                     Inl e \<Rightarrow> Inl e
                   | Inr cover_without_green \<Rightarrow>
                       (case cv2_bitwise_and user_image user_image mask of
                          Inl e \<Rightarrow> Inl e
                        | Inr user_image_with_green \<Rightarrow>
                            cv2_add cover_without_green user_image_with_green))))"

text \<open>
  A concrete colour conversion and interpolation, for evaluating the compositor on explicit
  images: the 8-bit BGR to HSV conversion as OpenCV documents it (value the largest channel,
  saturation \<open>255 (V - min) / V\<close>, hue in half degrees, rounded to nearest), and a
  nearest-neighbour stretch. The theorems hold for every conversion and interpolation.
\<close>

definition round_div :: "int \<Rightarrow> int \<Rightarrow> int" where
  "round_div a d = (2 * a + d) div (2 * d)"

definition bgr2hsv_doc :: cvt where
  "bgr2hsv_doc p =
     (case p of (b, g, r) \<Rightarrow>
        let B = uint b; G = uint g; R = uint r;
            V = max R (max G B); m = min R (min G B); d = V - m;
            S = (if V = 0 then 0 else round_div (255 * d) V);
            H = (if d = 0 then 0
                 else if V = R then round_div (30 * (G - B)) d
                 else if V = G then round_div (30 * (B - R) + 60 * d) d
                 else round_div (30 * (R - G) + 120 * d) d)
        in (word_of_int (H mod 180), word_of_int S, word_of_int V))"

definition stretch_nearest :: interp where
  "stretch_nearest src dsize r c =
     (case dsize of (w, h) \<Rightarrow> src ! (r * shape0 src div h) ! (c * shape1 src div w))"

text \<open>A 2 by 2 template (pure green, pure blue; a darker green, white) and a 1 by 1 red photo.\<close>

definition demo_template :: image where
  "demo_template = [[(0, 255, 0), (255, 0, 0)], [(40, 200, 60), (255, 255, 255)]]"

definition demo_photo :: image where
  "demo_photo = [[(0, 0, 255)]]"

section \<open>The application around the compositor\<close>

subsection \<open>Time stamps\<close>

text \<open>\<^verbatim>\<open>datetime.utcnow()\<close> and \<^verbatim>\<open>strftime('%Y%m%d%H%M%S')\<close>: the instant has microseconds, the
  formatted stamp stops at the second.\<close>

record datetime =
  year :: nat
  month :: nat
  day :: nat
  hour :: nat
  minute :: nat
  second :: nat
  microsecond :: nat

definition digit :: "nat \<Rightarrow> char" where
  "digit n = ''0123456789'' ! (n mod 10)"

definition pad2 :: "nat \<Rightarrow> string" where
  "pad2 n = [digit (n div 10), digit n]"

definition pad4 :: "nat \<Rightarrow> string" where
  "pad4 n = [digit (n div 1000), digit (n div 100), digit (n div 10), digit n]"

definition strftime_YmdHMS :: "datetime \<Rightarrow> string" where
  "strftime_YmdHMS t =
     pad4 (year t) @ pad2 (month t) @ pad2 (day t) @ pad2 (hour t) @ pad2 (minute t) @ pad2 (second t)"

subsection \<open>Records, files and library functions\<close>

record MobileModel =
  id' :: nat
  model_name :: string
  template_filename :: string
  created_at :: datetime

text \<open>An uploaded file of a request (werkzeug's \<^verbatim>\<open>FileStorage\<close>).\<close>

record uploaded_file =
  filename :: string
  content :: bytes

text \<open>The table behind \<^verbatim>\<open>MobileModel\<close>, the regular files, and the directories that exist (the
  three folders \<^verbatim>\<open>_create_folders\<close> makes among them), each under the path the program uses.\<close>

record app_state =
  db :: "MobileModel list"
  files :: "string \<rightharpoonup> bytes"
  dirs :: "string list"

text \<open>Library functions the application calls and does not define: the pixel conversion and
  interpolation above, the image codec behind \<^verbatim>\<open>cv2.imread\<close> and \<^verbatim>\<open>cv2.imwrite\<close>, and werkzeug's
  \<^verbatim>\<open>secure_filename\<close>.\<close>

record libs =
  cvtColor_px :: cvt
  resize_px :: interp
  imdecode :: "bytes \<Rightarrow> image option"
  imencode :: "image \<Rightarrow> bytes"
  secure_filename :: "string \<Rightarrow> string"

definition UPLOAD_FOLDER :: string where
  "UPLOAD_FOLDER = ''uploads''"

definition COVER_TEMPLATES_FOLDER :: string where
  "COVER_TEMPLATES_FOLDER = ''cover_templates''"

definition GENERATED_COVERS_FOLDER :: string where
  "GENERATED_COVERS_FOLDER = ''generated_covers''"

text \<open>\<^verbatim>\<open>os.path.join\<close> with two components.\<close>

definition os_path_join :: "string \<Rightarrow> string \<Rightarrow> string" where
  "os_path_join a b =
     (if b \<noteq> [] \<and> hd b = CHR ''/'' then b
      else if a = [] \<or> last a = CHR ''/'' then a @ b
      else a @ ''/'' @ b)"

text \<open>\<^verbatim>\<open>cv2.imread\<close>: \<^verbatim>\<open>None\<close> when the file is missing or does not decode.\<close>

definition cv2_imread :: "libs \<Rightarrow> (string \<rightharpoonup> bytes) \<Rightarrow> string \<Rightarrow> image option" where
  "cv2_imread L fs p = (case fs p of None \<Rightarrow> None | Some b \<Rightarrow> imdecode L b)"

definition combine_images :: "libs \<Rightarrow> (string \<rightharpoonup> bytes) \<Rightarrow> string \<Rightarrow> string \<Rightarrow> error + image" where
  "combine_images L fs user_image_path template_path =
     (let cover_template = cv2_imread L fs template_path;
          user_image = cv2_imread L fs user_image_path
      in combine_decoded (cvtColor_px L) (resize_px L) user_image cover_template)"

subsection \<open>Queries\<close>

text \<open>\<^verbatim>\<open>query.filter_by(model_name=n).first()\<close> and \<^verbatim>\<open>query.get(i)\<close>. A form field that is absent
  is \<^verbatim>\<open>None\<close>, which matches no row of the non-nullable column.\<close>

definition query_first_by_name :: "MobileModel list \<Rightarrow> string option \<Rightarrow> MobileModel option" where
  "query_first_by_name rows n =
     (case n of None \<Rightarrow> None | Some name \<Rightarrow> find (\<lambda>m. model_name m = name) rows)"

definition query_get :: "MobileModel list \<Rightarrow> nat \<Rightarrow> MobileModel option" where
  "query_get rows i = find (\<lambda>m. id' m = i) rows"

text \<open>The key SQLite gives a new row: one more than the largest key, 1 in an empty table.\<close>

definition next_id :: "MobileModel list \<Rightarrow> nat" where
  "next_id rows = Suc (fold max (map id' rows) 0)"

subsection \<open>Responses\<close>

datatype body =
    ErrorJson string
  | ErrorProcessing error
  | ErrorException error
  | Message string
  | File string

type_synonym response = "body \<times> nat"

subsection \<open>Uploading a photo\<close>

text \<open>The names \<^verbatim>\<open>_process_image\<close> computes before it touches a file (lines 97 to 106).\<close>

definition generated_cover_filename :: "MobileModel \<Rightarrow> datetime \<Rightarrow> string" where
  "generated_cover_filename mobile_model now =
     model_name mobile_model @ ''_'' @ strftime_YmdHMS now @ ''.png''"

definition generated_cover_path :: "MobileModel \<Rightarrow> datetime \<Rightarrow> string" where
  "generated_cover_path mobile_model now =
     os_path_join GENERATED_COVERS_FOLDER (generated_cover_filename mobile_model now)"

definition upload_filepath :: "libs \<Rightarrow> uploaded_file \<Rightarrow> string" where
  "upload_filepath L image' = os_path_join UPLOAD_FOLDER (secure_filename L (filename image'))"

definition cover_template_path :: "MobileModel \<Rightarrow> string" where
  "cover_template_path mobile_model = os_path_join COVER_TEMPLATES_FOLDER (template_filename mobile_model)"

text \<open>\<^verbatim>\<open>os.path.basename\<close> and \<^verbatim>\<open>os.path.dirname\<close>.\<close>

definition rstrip_slash :: "string \<Rightarrow> string" where
  "rstrip_slash p = rev (dropWhile (\<lambda>c. c = CHR ''/'') (rev p))"

definition os_path_basename :: "string \<Rightarrow> string" where
  "os_path_basename p = rev (takeWhile (\<lambda>c. c \<noteq> CHR ''/'') (rev p))"

definition os_path_dirname :: "string \<Rightarrow> string" where
  "os_path_dirname p =
     (let head = take (length p - length (os_path_basename p)) p
      in if rstrip_slash head \<noteq> [] then rstrip_slash head else head)"

text \<open>A path names a directory when, without its trailing slashes, it is one of the directories
  of the state; \<^verbatim>\<open>os.path.exists\<close> holds of files and of directories.\<close>

definition is_dir :: "app_state \<Rightarrow> string \<Rightarrow> bool" where
  "is_dir s p = (p \<noteq> [] \<and> (if rstrip_slash p \<noteq> [] then rstrip_slash p else p) \<in> set (dirs s))"

definition os_path_exists :: "app_state \<Rightarrow> string \<Rightarrow> bool" where
  "os_path_exists s p = (files s p \<noteq> None \<or> is_dir s p)"

text \<open>Opening a path for writing succeeds when it names no directory, has a file name, and its
  directory exists (a path without a directory part lies in the working directory).\<close>

definition can_write :: "app_state \<Rightarrow> string \<Rightarrow> bool" where
  "can_write s p =
     (\<not> is_dir s p \<and> os_path_basename p \<noteq> [] \<and>
      (os_path_dirname p = [] \<or> is_dir s (os_path_dirname p)))"

definition write_file :: "string \<Rightarrow> bytes \<Rightarrow> app_state \<Rightarrow> app_state" where
  "write_file p b s = s\<lparr>files := (files s)(p \<mapsto> b)\<rparr>"

text \<open>\<^verbatim>\<open>file.save(path)\<close> of an uploaded file: it raises when the path cannot be opened.\<close>

definition save_file :: "string \<Rightarrow> bytes \<Rightarrow> app_state \<Rightarrow> error + app_state" where
  "save_file p b s = (if can_write s p then Inr (write_file p b s) else Inl OSError)"

text \<open>\<^verbatim>\<open>cv2.imwrite(path, img)\<close> does not raise when the path cannot be opened: it returns
  \<^verbatim>\<open>False\<close>, which the caller ignores, and writes nothing.\<close>

definition cv2_imwrite :: "libs \<Rightarrow> string \<Rightarrow> image \<Rightarrow> app_state \<Rightarrow> app_state" where
  "cv2_imwrite L p img s = (if can_write s p then write_file p (imencode L img) s else s)"

text \<open>\<^verbatim>\<open>send_file(path, ...)\<close> raises when there is no such regular file.\<close>

definition send_file :: "string \<Rightarrow> app_state \<Rightarrow> response" where
  "send_file p s = (if files s p = None then (ErrorException OSError, 500) else (File p, 200))"

text \<open>\<^verbatim>\<open>_process_image\<close>: \<open>now\<close> is the instant \<^verbatim>\<open>datetime.utcnow()\<close> returns. The upload is saved
  outside the \<^verbatim>\<open>try\<close>, so an exception there, like one of \<^verbatim>\<open>send_file\<close>, reaches the global handler
  (status 500).\<close>

definition process_image :: "libs \<Rightarrow> datetime \<Rightarrow> uploaded_file \<Rightarrow> MobileModel \<Rightarrow> app_state \<Rightarrow> response \<times> app_state" where
  "process_image L now image' mobile_model s =
     (let filepath = upload_filepath L image'
      in case save_file filepath (content image') s of
           Inl e \<Rightarrow> ((ErrorException e, 500), s)
         | Inr s1 \<Rightarrow>
             (let template_path = cover_template_path mobile_model
              in if \<not> os_path_exists s1 template_path
                 then ((ErrorJson ''Mobile cover template not found!'', 500), s1)
                 else (case combine_images L (files s1) filepath template_path of
                         Inl e \<Rightarrow> ((ErrorProcessing e, 500), s1)
                       | Inr combined_image \<Rightarrow>
                           (let s2 = cv2_imwrite L (generated_cover_path mobile_model now)
                                       combined_image s1
                            in (send_file (generated_cover_path mobile_model now) s2, s2)))))"

text \<open>The request of \<^verbatim>\<open>/upload\<close>: the file field \<^verbatim>\<open>image\<close> and the form field \<^verbatim>\<open>model\<close>, each
  possibly absent.\<close>

record upload_request =
  req_image :: "uploaded_file option"
  req_model :: "string option"

definition upload_image :: "libs \<Rightarrow> datetime \<Rightarrow> upload_request \<Rightarrow> app_state \<Rightarrow> response \<times> app_state" where
  "upload_image L now req s =
     (case req_image req of
        None \<Rightarrow> ((ErrorJson ''No image uploaded!'', 400), s)
      | Some image' \<Rightarrow>
          (case query_first_by_name (db s) (req_model req) of
             None \<Rightarrow> ((ErrorJson ''Invalid mobile model!'', 400), s)
           | Some mobile_model \<Rightarrow>
               if filename image' = [] then ((ErrorJson ''No selected file!'', 400), s)
               else process_image L now image' mobile_model s))"

subsection \<open>Managing the models\<close>

record add_request =
  add_template_file :: "uploaded_file option"
  add_model_name :: "string option"

definition add_model :: "libs \<Rightarrow> datetime \<Rightarrow> add_request \<Rightarrow> app_state \<Rightarrow> response \<times> app_state" where
  "add_model L now req s =
     (case add_template_file req of
        None \<Rightarrow> ((ErrorJson ''Model name and template file are required'', 400), s)
      | Some template_file \<Rightarrow>
          (case add_model_name req of
             None \<Rightarrow> ((ErrorJson ''Model name and template file are required'', 400), s)
           | Some name \<Rightarrow>
               (case query_first_by_name (db s) (Some name) of
                  Some existing_model \<Rightarrow> ((ErrorJson ''Model already exists'', 400), s)
                | None \<Rightarrow>
                    (let fname = secure_filename L (filename template_file);
                         template_filepath = os_path_join COVER_TEMPLATES_FOLDER fname
                     in case save_file template_filepath (content template_file) s of
                          Inl e \<Rightarrow> ((ErrorException e, 500), s)
                        | Inr s1 \<Rightarrow>
                            (let new_model = \<lparr>id' = next_id (db s1), model_name = name,
                                               template_filename = fname, created_at = now\<rparr>
                             in ((Message (''Model '' @ name @ '' added successfully!''), 201),
                                 s1\<lparr>db := db s1 @ [new_model]\<rparr>))))))"

text \<open>The JSON body of \<^verbatim>\<open>/update_model\<close>; \<^verbatim>\<open>data.get\<close> gives \<^verbatim>\<open>None\<close> for a missing key, and an
  empty string is as false as \<^verbatim>\<open>None\<close>. A request without a JSON body makes \<^verbatim>\<open>data.get\<close> raise,
  which the global handler answers with status 500.\<close>

record update_data =
  upd_model_name :: "string option"
  upd_template_filename :: "string option"

definition truthy :: "string option \<Rightarrow> bool" where
  "truthy v = (case v of None \<Rightarrow> False | Some t \<Rightarrow> t \<noteq> [])"

definition update_model :: "nat \<Rightarrow> update_data option \<Rightarrow> app_state \<Rightarrow> response \<times> app_state" where
  "update_model model_id data0 s =
     (case data0 of
        None \<Rightarrow> ((ErrorException AttributeError, 500), s)
      | Some data \<Rightarrow>
          (case query_get (db s) model_id of
             None \<Rightarrow> ((ErrorJson ''Model not found'', 404), s)
           | Some model \<Rightarrow>
               if truthy (upd_model_name data) \<and>
                  (case query_first_by_name (db s) (upd_model_name data) of
                     None \<Rightarrow> False
                   | Some existing_model \<Rightarrow> id' existing_model \<noteq> model_id)
               then ((ErrorJson ''Model name already exists'', 400), s)
               else
                 (let model1 = (case upd_model_name data of
                                  None \<Rightarrow> model
                                | Some n \<Rightarrow> if n \<noteq> [] then model\<lparr>model_name := n\<rparr> else model);
                      model2 = (case upd_template_filename data of
                                  None \<Rightarrow> model1
                                | Some t \<Rightarrow> if t \<noteq> [] then model1\<lparr>template_filename := t\<rparr> else model1)
                  in ((Message (''Model '' @ model_name model2 @ '' updated successfully!''), 200),
                      s\<lparr>db := map (\<lambda>m. if id' m = model_id then model2 else m) (db s)\<rparr>))))"

definition delete_model :: "nat \<Rightarrow> app_state \<Rightarrow> response \<times> app_state" where
  "delete_model model_id s =
     (case query_get (db s) model_id of
        None \<Rightarrow> ((ErrorJson ''Model not found'', 404), s)
      | Some model \<Rightarrow>
          ((Message (''Model '' @ model_name model @ '' deleted successfully!''), 200),
           s\<lparr>db := filter (\<lambda>m. id' m \<noteq> model_id) (db s)\<rparr>))"

text \<open>The constraints the table declares: \<^verbatim>\<open>id\<close> is the primary key and \<^verbatim>\<open>model_name\<close> is unique.\<close>

definition store_inv :: "MobileModel list \<Rightarrow> bool" where
  "store_inv rows = (distinct (map id' rows) \<and> distinct (map model_name rows))"

subsection \<open>An example installation\<close>

text \<open>
  Stand-ins for the codec and for \<^verbatim>\<open>secure_filename\<close>, to run the handlers on explicit
  requests: a file of three bytes per pixel decodes to one row of pixels, an empty or ragged
  file does not decode; \<^verbatim>\<open>secure_filename\<close> drops the slashes.
\<close>

fun demo_pixels :: "bytes \<Rightarrow> pixel list option" where
  "demo_pixels [] = Some []"
| "demo_pixels (b # g # r # rest) = map_option ((#) (b, g, r)) (demo_pixels rest)"
| "demo_pixels _ = None"

definition demo_decode :: "bytes \<Rightarrow> image option" where
  "demo_decode bs = (case demo_pixels bs of Some (p # ps) \<Rightarrow> Some [p # ps] | _ \<Rightarrow> None)"

definition demo_encode :: "image \<Rightarrow> bytes" where
  "demo_encode img = concat (map (\<lambda>(b, g, r). [b, g, r]) (concat img))"

definition demo_libs :: libs where
  "demo_libs = \<lparr>cvtColor_px = bgr2hsv_doc, resize_px = stretch_nearest, imdecode = demo_decode,
     imencode = demo_encode, secure_filename = filter (\<lambda>c. c \<noteq> CHR ''/'')\<rparr>"

definition demo_time :: datetime where
  "demo_time = \<lparr>year = 2024, month = 5, day = 17, hour = 9, minute = 30, second = 12, microsecond = 0\<rparr>"

definition demo_model :: MobileModel where
  "demo_model = \<lparr>id' = 1, model_name = ''iPhone'', template_filename = ''iphone.png'',
     created_at = demo_time\<rparr>"

definition demo_dirs :: "string list" where
  "demo_dirs = [''uploads'', ''cover_templates'', ''generated_covers'']"

definition demo_state :: app_state where
  "demo_state = \<lparr>db = [demo_model], files = [''cover_templates/iphone.png'' \<mapsto> [0, 255, 0]],
     dirs = demo_dirs\<rparr>"

definition demo_upload :: "string \<Rightarrow> bytes \<Rightarrow> upload_request" where
  "demo_upload name bs = \<lparr>req_image = Some \<lparr>filename = name, content = bs\<rparr>, req_model = Some ''iPhone''\<rparr>"

definition demo_model2 :: MobileModel where
  "demo_model2 = \<lparr>id' = 2, model_name = ''Pixel'', template_filename = ''pixel.png'',
     created_at = demo_time\<rparr>"

definition demo_state2 :: app_state where
  "demo_state2 = \<lparr>db = [demo_model, demo_model2],
     files = [''cover_templates/iphone.png'' \<mapsto> [0, 255, 0], ''cover_templates/pixel.png'' \<mapsto> []],
     dirs = demo_dirs\<rparr>"

definition demo_add :: "string \<Rightarrow> add_request" where
  "demo_add name = \<lparr>add_template_file = Some \<lparr>filename = ''new.png'', content = [0, 255, 0]\<rparr>,
     add_model_name = Some name\<rparr>"

definition demo_rename :: "string \<Rightarrow> update_data" where
  "demo_rename name = \<lparr>upd_model_name = Some name, upd_template_filename = None\<rparr>"

definition demo_state_bad :: app_state where
  "demo_state_bad = \<lparr>db = [demo_model], files = [''cover_templates/iphone.png'' \<mapsto> []],
     dirs = demo_dirs\<rparr>"

section \<open>Properties of the pixel operations\<close>

lemma sat_add_zero_right: "sat_add a 0 = a"
  using unsigned_less [of a, where 'a = nat] by (simp add: sat_add_def)

lemma sat_add_zero_left: "sat_add 0 b = b"
  using unsigned_less [of b, where 'a = nat] by (simp add: sat_add_def)

lemma px_and_same: "px_and p p = p"
  by (cases p) (simp add: px_and_def)

lemma px_add_zero_right: "px_add p (0, 0, 0) = p"
  by (cases p) (simp add: px_add_def sat_add_zero_right)

lemma px_add_zero_left: "px_add (0, 0, 0) q = q"
  by (cases q) (simp add: px_add_def sat_add_zero_left)

section \<open>Shapes and positions in the arrays\<close>

lemma valid_image_row: "valid_image T \<Longrightarrow> r < length T \<Longrightarrow> length (T ! r) = shape1 T"
  by (simp add: valid_image_def list_all_length)

lemma valid_image_pos: "valid_image T \<Longrightarrow> 0 < length T \<and> 0 < shape1 T"
  by (simp add: valid_image_def)

lemma valid_image_map_length: "valid_image T \<Longrightarrow> map length T = replicate (length T) (shape1 T)"
  by (simp add: list_eq_iff_nth_eq valid_image_row)

lemma cv2_resize_Some:
  "valid_image P \<Longrightarrow> 0 < w \<Longrightarrow> 0 < h \<Longrightarrow>
   cv2_resize ip (Some P) (w, h) = Inr (map (\<lambda>r. map (\<lambda>c. ip P (w, h) r c) [0..<w]) [0..<h])"
  by (simp add: cv2_resize_def valid_image_def shape0_def)

lemma map_length_grid: "map length (map (\<lambda>r. map (f r) [0..<w]) [0..<h]) = replicate h w"
  by (simp add: list_eq_iff_nth_eq)

lemma map_length_chroma_mask: "map length (chroma_mask cv T) = map length T"
  by (simp add: chroma_mask_def cv2_inRange_def cv2_cvtColor_def comp_def)

lemma map_length_chroma_mask_inv: "map length (chroma_mask_inv cv T) = map length T"
  by (simp add: chroma_mask_inv_def cv2_bitwise_not_def comp_def map_length_chroma_mask)

lemma chroma_mask_nth:
  "r < length T \<Longrightarrow> c < length (T ! r) \<Longrightarrow>
   chroma_mask cv T ! r ! c = (if in_bounds (cv (T ! r ! c)) lower_green upper_green then 255 else 0)"
  by (simp add: chroma_mask_def cv2_inRange_def cv2_cvtColor_def)

lemma chroma_mask_inv_nth:
  "r < length T \<Longrightarrow> c < length (T ! r) \<Longrightarrow>
   chroma_mask_inv cv T ! r ! c = NOT (chroma_mask cv T ! r ! c)"
  by (simp add: chroma_mask_inv_def cv2_bitwise_not_def chroma_mask_def cv2_inRange_def cv2_cvtColor_def)

lemma cv2_bitwise_and_Inr:
  "map length A = map length B \<Longrightarrow> map length A = map length m \<Longrightarrow>
   cv2_bitwise_and A B m = Inr (map (\<lambda>(ps, qs, ms). masked_and_row ps qs ms) (zip A (zip B m)))"
  by (simp add: cv2_bitwise_and_def)

lemma map_length_eq_nth:
  "map length A = map length B \<Longrightarrow> length A = length B \<and> (\<forall>r < length A. length (A ! r) = length (B ! r))"
  by (metis length_map nth_map)

lemma bitwise_and_out_nth:
  assumes "map length A = map length B" "map length A = map length m" "r < length A" "c < length (A ! r)"
  shows "map (\<lambda>(ps, qs, ms). masked_and_row ps qs ms) (zip A (zip B m)) ! r ! c
         = masked_and_px (A ! r ! c) (B ! r ! c) (m ! r ! c)"
proof -
  from assms(1) have B: "length A = length B" "length (A ! r) = length (B ! r)"
    using map_length_eq_nth assms(3) by blast+
  from assms(2) have M: "length A = length m" "length (A ! r) = length (m ! r)"
    using map_length_eq_nth assms(3) by blast+
  show ?thesis using assms(3,4) B M by (simp add: masked_and_row_def)
qed

lemma bitwise_and_out_lengths:
  assumes "map length A = map length B" "map length A = map length m"
  shows "map length (map (\<lambda>(ps, qs, ms). masked_and_row ps qs ms) (zip A (zip B m))) = map length A"
proof (rule nth_equalityI)
  from assms have L: "length A = length B" "length A = length m"
    using map_length_eq_nth by blast+
  then show "length (map length (map (\<lambda>(ps, qs, ms). masked_and_row ps qs ms) (zip A (zip B m)))) = length (map length A)"
    by simp
  fix i assume "i < length (map length (map (\<lambda>(ps, qs, ms). masked_and_row ps qs ms) (zip A (zip B m))))"
  then have i: "i < length A" using L by simp
  then have "length (A ! i) = length (B ! i)" "length (A ! i) = length (m ! i)"
    using assms map_length_eq_nth by blast+
  then show "map length (map (\<lambda>(ps, qs, ms). masked_and_row ps qs ms) (zip A (zip B m))) ! i = map length A ! i"
    using i L by (simp add: masked_and_row_def)
qed

lemma cv2_add_Inr:
  "map length A = map length B \<Longrightarrow>
   cv2_add A B = Inr (map (\<lambda>(ps, qs). map (\<lambda>(p, q). px_add p q) (zip ps qs)) (zip A B))"
  by (simp add: cv2_add_def)

lemma add_out_nth:
  assumes "map length A = map length B" "r < length A" "c < length (A ! r)"
  shows "map (\<lambda>(ps, qs). map (\<lambda>(p, q). px_add p q) (zip ps qs)) (zip A B) ! r ! c
         = px_add (A ! r ! c) (B ! r ! c)"
proof -
  from assms(1) have B: "length A = length B" "length (A ! r) = length (B ! r)"
    using map_length_eq_nth assms(2) by blast+
  show ?thesis using assms(2,3) B by simp
qed

lemma add_out_lengths:
  assumes "map length A = map length B"
  shows "map length (map (\<lambda>(ps, qs). map (\<lambda>(p, q). px_add p q) (zip ps qs)) (zip A B)) = map length A"
proof (rule nth_equalityI)
  from assms have L: "length A = length B"
    using map_length_eq_nth by blast
  then show "length (map length (map (\<lambda>(ps, qs). map (\<lambda>(p, q). px_add p q) (zip ps qs)) (zip A B))) = length (map length A)"
    by simp
  fix i assume "i < length (map length (map (\<lambda>(ps, qs). map (\<lambda>(p, q). px_add p q) (zip ps qs)) (zip A B)))"
  then have i: "i < length A" using L by simp
  then have "length (A ! i) = length (B ! i)"
    using assms map_length_eq_nth by blast
  then show "map length (map (\<lambda>(ps, qs). map (\<lambda>(p, q). px_add p q) (zip ps qs)) (zip A B)) ! i = map length A ! i"
    using i L by simp
qed

lemma in_bounds_chroma: "in_bounds p lower_green upper_green = in_chroma_range p"
  by (cases p) (simp add: in_bounds_def in_chroma_range_def lower_green_def upper_green_def word_le_nat_alt)

lemma grid_eqI:
  assumes "map length A = map length B"
    and "\<And>r c. r < length A \<Longrightarrow> c < length (A ! r) \<Longrightarrow> A ! r ! c = B ! r ! c"
  shows "A = B"
proof (rule nth_equalityI)
  show "length A = length B" using assms(1) map_length_eq_nth by blast
  fix r assume r: "r < length A"
  then have "length (A ! r) = length (B ! r)" using assms(1) map_length_eq_nth by blast
  then show "A ! r = B ! r" using assms(2) r by (simp add: nth_equalityI)
qed

lemma masked_layers_px:
  "px_add (masked_and_px t t (NOT (if b then 255 else 0))) (masked_and_px u u (if b then 255 else 0))
   = (if b then u else t)"
  by (simp add: masked_and_px_def px_and_same px_add_zero_left px_add_zero_right)

lemma combine_decoded_px:
  assumes T: "valid_image T" and P: "valid_image P"
  shows "\<exists>out. combine_decoded cv ip (Some P) (Some T) = Inr out \<and> map length out = map length T \<and>
           (\<forall>r < length T. \<forall>c < shape1 T.
              out ! r ! c = (if in_chroma_range (cv (T ! r ! c))
                             then ip P (shape1 T, shape0 T) r c else T ! r ! c))"
proof -
  define w where "w = shape1 T"
  define h where "h = shape0 T"
  define U where "U = map (\<lambda>r. map (\<lambda>c. ip P (w, h) r c) [0..<w]) [0..<h]"
  define kept where "kept = map (\<lambda>(ps, qs, ms). masked_and_row ps qs ms) (zip T (zip T (chroma_mask_inv cv T)))"
  define ins where "ins = map (\<lambda>(ps, qs, ms). masked_and_row ps qs ms) (zip U (zip U (chroma_mask cv T)))"
  define out where "out = map (\<lambda>(ps, qs). map (\<lambda>(p, q). px_add p q) (zip ps qs)) (zip kept ins)"
  have pos: "0 < w" "0 < h" using valid_image_pos [OF T] by (simp_all add: w_def h_def shape0_def)
  have hT: "h = length T" by (simp add: h_def shape0_def)
  have R: "cv2_resize ip (Some P) (shape1 T, shape0 T) = Inr U"
    unfolding U_def w_def [symmetric] h_def [symmetric] by (rule cv2_resize_Some [OF P pos])
  have lU: "map length U = map length T"
    unfolding U_def map_length_grid by (simp add: valid_image_map_length [OF T] hT w_def)
  have K: "cv2_bitwise_and T T (chroma_mask_inv cv T) = Inr kept"
    unfolding kept_def by (rule cv2_bitwise_and_Inr) (simp_all add: map_length_chroma_mask_inv)
  have I: "cv2_bitwise_and U U (chroma_mask cv T) = Inr ins"
    unfolding ins_def by (rule cv2_bitwise_and_Inr) (simp_all add: map_length_chroma_mask lU)
  have lK: "map length kept = map length T"
    unfolding kept_def by (rule bitwise_and_out_lengths) (simp_all add: map_length_chroma_mask_inv)
  have lI: "map length ins = map length T"
    unfolding ins_def using bitwise_and_out_lengths [of U U "chroma_mask cv T"]
    by (simp add: map_length_chroma_mask lU)
  have A: "cv2_add kept ins = Inr out"
    unfolding out_def by (rule cv2_add_Inr) (simp add: lK lI)
  have lO: "map length out = map length T"
    unfolding out_def using add_out_lengths [of kept ins] by (simp add: lK lI)
  have C: "combine_decoded cv ip (Some P) (Some T) = Inr out"
    by (simp add: combine_decoded_def R K I A)
  have px: "out ! r ! c = (if in_chroma_range (cv (T ! r ! c)) then ip P (shape1 T, shape0 T) r c else T ! r ! c)"
    if r: "r < length T" and c: "c < shape1 T" for r c
  proof -
    have cT: "c < length (T ! r)" using valid_image_row [OF T r] c by simp
    have rK: "r < length kept" "c < length (kept ! r)"
      using lK r cT map_length_eq_nth [of kept T] by auto
    have rU: "r < length U" "c < length (U ! r)"
      using lU r cT map_length_eq_nth [of U T] by auto
    have Urc: "U ! r ! c = ip P (shape1 T, shape0 T) r c"
      using r c by (simp add: U_def hT w_def shape0_def)
    have "out ! r ! c = px_add (kept ! r ! c) (ins ! r ! c)"
      unfolding out_def by (rule add_out_nth) (simp_all add: lK lI rK)
    also have "kept ! r ! c = masked_and_px (T ! r ! c) (T ! r ! c) (chroma_mask_inv cv T ! r ! c)"
      unfolding kept_def by (rule bitwise_and_out_nth) (simp_all add: map_length_chroma_mask_inv r cT)
    also have "ins ! r ! c = masked_and_px (U ! r ! c) (U ! r ! c) (chroma_mask cv T ! r ! c)"
      unfolding ins_def by (rule bitwise_and_out_nth) (simp_all add: map_length_chroma_mask lU rU)
    finally show ?thesis
      by (simp only: chroma_mask_inv_nth [OF r cT] chroma_mask_nth [OF r cT] masked_layers_px
            in_bounds_chroma Urc)
  qed
  show ?thesis using C lO px by blast
qed

lemma same_lengths_valid:
  assumes "map length A = map length T" "valid_image T"
  shows "valid_image A \<and> shape0 A = shape0 T \<and> shape1 A = shape1 T"
proof -
  have L: "length A = length T" "\<And>r. r < length A \<Longrightarrow> length (A ! r) = length (T ! r)"
    using assms(1) map_length_eq_nth by blast+
  have T0: "T \<noteq> []" "0 < shape1 T" using assms(2) by (simp_all add: valid_image_def)
  then have A0: "A \<noteq> []" using L(1) by auto
  have s1: "shape1 A = shape1 T"
    using L(2) [of 0] A0 T0 by (cases A; cases T) (simp_all add: shape1_def)
  have "\<And>r. r < length A \<Longrightarrow> length (A ! r) = shape1 A"
    using L valid_image_row [OF assms(2)] s1 by simp
  then have "valid_image A"
    using A0 T0 s1 by (simp add: valid_image_def list_all_length)
  then show ?thesis using s1 L(1) by (simp add: shape0_def)
qed

lemma resize_valid:
  assumes "valid_image T" "valid_image P"
  shows "\<exists>U. cv2_resize ip (Some P) (shape1 T, shape0 T) = Inr U \<and> map length U = map length T \<and>
           (\<forall>r < shape0 T. \<forall>c < shape1 T. U ! r ! c = ip P (shape1 T, shape0 T) r c)"
proof -
  have pos: "0 < shape1 T" "0 < shape0 T" using valid_image_pos [OF assms(1)] by (simp_all add: shape0_def)
  have "map length (map (\<lambda>r. map (\<lambda>c. ip P (shape1 T, shape0 T) r c) [0..<shape1 T]) [0..<shape0 T]) = map length T"
    unfolding map_length_grid by (simp add: valid_image_map_length [OF assms(1)] shape0_def)
  then show ?thesis using cv2_resize_Some [OF assms(2) pos, of ip] by simp
qed

lemma kept_layer:
  assumes T: "valid_image T"
  shows "\<exists>kept. cv2_bitwise_and T T (chroma_mask_inv cv T) = Inr kept \<and> map length kept = map length T \<and>
           (\<forall>r < shape0 T. \<forall>c < shape1 T.
              kept ! r ! c = (if in_chroma_range (cv (T ! r ! c)) then (0, 0, 0) else T ! r ! c))"
proof -
  define kept where "kept = map (\<lambda>(ps, qs, ms). masked_and_row ps qs ms) (zip T (zip T (chroma_mask_inv cv T)))"
  have K: "cv2_bitwise_and T T (chroma_mask_inv cv T) = Inr kept"
    unfolding kept_def by (rule cv2_bitwise_and_Inr) (simp_all add: map_length_chroma_mask_inv)
  have lK: "map length kept = map length T"
    unfolding kept_def by (rule bitwise_and_out_lengths) (simp_all add: map_length_chroma_mask_inv)
  have "kept ! r ! c = (if in_chroma_range (cv (T ! r ! c)) then (0, 0, 0) else T ! r ! c)"
    if "r < shape0 T" "c < shape1 T" for r c
  proof -
    have r: "r < length T" using that by (simp add: shape0_def)
    have cT: "c < length (T ! r)" using valid_image_row [OF T r] that by simp
    have "kept ! r ! c = masked_and_px (T ! r ! c) (T ! r ! c) (chroma_mask_inv cv T ! r ! c)"
      unfolding kept_def by (rule bitwise_and_out_nth) (simp_all add: map_length_chroma_mask_inv r cT)
    then show ?thesis
      by (simp add: chroma_mask_inv_nth [OF r cT] chroma_mask_nth [OF r cT] masked_and_px_def
            px_and_same in_bounds_chroma)
  qed
  then show ?thesis using K lK by blast
qed

lemma inserted_layer:
  assumes T: "valid_image T" and lU: "map length U = map length T"
  shows "\<exists>ins. cv2_bitwise_and U U (chroma_mask cv T) = Inr ins \<and> map length ins = map length T \<and>
           (\<forall>r < shape0 T. \<forall>c < shape1 T.
              ins ! r ! c = (if in_chroma_range (cv (T ! r ! c)) then U ! r ! c else (0, 0, 0)))"
proof -
  define ins where "ins = map (\<lambda>(ps, qs, ms). masked_and_row ps qs ms) (zip U (zip U (chroma_mask cv T)))"
  have I: "cv2_bitwise_and U U (chroma_mask cv T) = Inr ins"
    unfolding ins_def by (rule cv2_bitwise_and_Inr) (simp_all add: map_length_chroma_mask lU)
  have lI: "map length ins = map length T"
    unfolding ins_def using bitwise_and_out_lengths [of U U "chroma_mask cv T"]
    by (simp add: map_length_chroma_mask lU)
  have "ins ! r ! c = (if in_chroma_range (cv (T ! r ! c)) then U ! r ! c else (0, 0, 0))"
    if "r < shape0 T" "c < shape1 T" for r c
  proof -
    have r: "r < length T" using that by (simp add: shape0_def)
    have cT: "c < length (T ! r)" using valid_image_row [OF T r] that by simp
    have rU: "r < length U" "c < length (U ! r)"
      using lU r cT map_length_eq_nth [of U T] by auto
    have "ins ! r ! c = masked_and_px (U ! r ! c) (U ! r ! c) (chroma_mask cv T ! r ! c)"
      unfolding ins_def by (rule bitwise_and_out_nth) (simp_all add: map_length_chroma_mask lU rU)
    then show ?thesis
      by (simp add: chroma_mask_nth [OF r cT] masked_and_px_def px_and_same in_bounds_chroma)
  qed
  then show ?thesis using I lI by blast
qed

lemma select_image_lengths:
  assumes "map length m = map length T" "map length U = map length T"
  shows "map length (select_image m T U) = map length T"
proof (rule nth_equalityI)
  have L: "length m = length T" "length U = length T"
    using assms map_length_eq_nth by blast+
  then show "length (map length (select_image m T U)) = length (map length T)"
    by (simp add: select_image_def)
  fix i assume "i < length (map length (select_image m T U))"
  then have i: "i < length T" using L by (simp add: select_image_def)
  then have "length (m ! i) = length (T ! i)" "length (U ! i) = length (T ! i)"
    using assms map_length_eq_nth L by metis+
  then show "map length (select_image m T U) ! i = map length T ! i"
    using i L by (simp add: select_image_def)
qed

lemma select_image_nth:
  assumes "map length m = map length T" "map length U = map length T" "r < length T" "c < length (T ! r)"
  shows "select_image m T U ! r ! c = (if m ! r ! c \<noteq> 0 then U ! r ! c else T ! r ! c)"
proof -
  have L: "length m = length T" "length U = length T"
    using assms map_length_eq_nth by blast+
  have "length (m ! r) = length (T ! r)" "length (U ! r) = length (T ! r)"
    using assms map_length_eq_nth L by metis+
  then show ?thesis using assms(3,4) L by (simp add: select_image_def)
qed

lemma add_layers_select:
  assumes "valid_image T" and "valid_image P"
    and "cv2_resize ip (Some P) (shape1 T, shape0 T) = Inr U"
    and "cv2_bitwise_and T T (chroma_mask_inv cv T) = Inr kept"
    and "cv2_bitwise_and U U (chroma_mask cv T) = Inr inserted"
  shows "cv2_add kept inserted = Inr (select_image (chroma_mask cv T) T U) \<and>
         combine_decoded cv ip (Some P) (Some T) = Inr (select_image (chroma_mask cv T) T U)"
proof -
  obtain U' where U': "cv2_resize ip (Some P) (shape1 T, shape0 T) = Inr U'" "map length U' = map length T"
    using resize_valid [OF assms(1,2), of ip] by auto
  then have lU: "map length U = map length T" using assms(3) by simp
  obtain k where k: "cv2_bitwise_and T T (chroma_mask_inv cv T) = Inr k" "map length k = map length T"
    "\<forall>r < shape0 T. \<forall>c < shape1 T. k ! r ! c = (if in_chroma_range (cv (T ! r ! c)) then (0, 0, 0) else T ! r ! c)"
    using kept_layer [OF assms(1), of cv] by blast
  obtain i where i: "cv2_bitwise_and U U (chroma_mask cv T) = Inr i" "map length i = map length T"
    "\<forall>r < shape0 T. \<forall>c < shape1 T. i ! r ! c = (if in_chroma_range (cv (T ! r ! c)) then U ! r ! c else (0, 0, 0))"
    using inserted_layer [OF assms(1) lU, of cv] by blast
  have kk: "k = kept" and ii: "i = inserted" using k(1) i(1) assms(4,5) by simp_all
  have lsel: "map length (select_image (chroma_mask cv T) T U) = map length T"
    by (rule select_image_lengths) (simp_all add: map_length_chroma_mask lU)
  define out where "out = map (\<lambda>(ps, qs). map (\<lambda>(p, q). px_add p q) (zip ps qs)) (zip k i)"
  have A: "cv2_add k i = Inr out"
    unfolding out_def by (rule cv2_add_Inr) (simp add: k(2) i(2))
  have lO: "map length out = map length T"
    unfolding out_def using add_out_lengths [of k i] by (simp add: k(2) i(2))
  have "out = select_image (chroma_mask cv T) T U"
  proof (rule grid_eqI)
    show "map length out = map length (select_image (chroma_mask cv T) T U)"
      by (simp add: lO lsel)
    fix r c assume rc: "r < length out" "c < length (out ! r)"
    then have r: "r < length T" and cT: "c < length (T ! r)"
      using lO map_length_eq_nth [of out T] by auto
    have c1: "c < shape1 T" using valid_image_row [OF assms(1) r] cT by simp
    have r0: "r < shape0 T" using r by (simp add: shape0_def)
    have rk: "r < length k" "c < length (k ! r)"
      using k(2) r cT map_length_eq_nth [of k T] by auto
    have "out ! r ! c = px_add (k ! r ! c) (i ! r ! c)"
      unfolding out_def by (rule add_out_nth) (simp_all add: k(2) i(2) rk)
    also have "\<dots> = (if in_chroma_range (cv (T ! r ! c)) then U ! r ! c else T ! r ! c)"
      using k(3) i(3) r0 c1 by (simp add: px_add_zero_left px_add_zero_right)
    also have "\<dots> = select_image (chroma_mask cv T) T U ! r ! c"
      using select_image_nth [of "chroma_mask cv T" T U r c] r cT lU
      by (simp add: map_length_chroma_mask chroma_mask_nth [OF r cT] in_bounds_chroma)
    finally show "out ! r ! c = select_image (chroma_mask cv T) T U ! r ! c" .
  qed
  then have add: "cv2_add kept inserted = Inr (select_image (chroma_mask cv T) T U)"
    using A kk ii by simp
  then show ?thesis
    by (simp add: combine_decoded_def assms(3,4,5))
qed


lemma combine_decoded_layers:
  assumes "valid_image T" and "valid_image P"
  shows "\<exists>U kept inserted.
           cv2_resize ip (Some P) (shape1 T, shape0 T) = Inr U \<and> map length U = map length T \<and>
           (\<forall>r < shape0 T. \<forall>c < shape1 T. U ! r ! c = ip P (shape1 T, shape0 T) r c) \<and>
           cv2_bitwise_and T T (chroma_mask_inv cv T) = Inr kept \<and>
           cv2_bitwise_and U U (chroma_mask cv T) = Inr inserted \<and>
           cv2_add kept inserted = Inr (select_image (chroma_mask cv T) T U) \<and>
           combine_decoded cv ip (Some P) (Some T) = Inr (select_image (chroma_mask cv T) T U)"
proof -
  obtain U where U: "cv2_resize ip (Some P) (shape1 T, shape0 T) = Inr U" "map length U = map length T"
    "\<forall>r < shape0 T. \<forall>c < shape1 T. U ! r ! c = ip P (shape1 T, shape0 T) r c"
    using resize_valid [OF assms, of ip] by blast
  obtain kept where k: "cv2_bitwise_and T T (chroma_mask_inv cv T) = Inr kept"
    using kept_layer [OF assms(1), of cv] by blast
  obtain inserted where i: "cv2_bitwise_and U U (chroma_mask cv T) = Inr inserted"
    using inserted_layer [OF assms(1) U(2), of cv] by blast
  show ?thesis
    using U k i add_layers_select [OF assms U(1) k i] by blast
qed

section \<open>The compositor on the example images\<close>

lemma demo_valid: "valid_image demo_template" "valid_image demo_photo"
  by (simp_all add: valid_image_def demo_template_def demo_photo_def shape1_def)

lemma demo_shape: "shape0 demo_template = 2" "shape1 demo_template = 2"
  by (simp_all add: demo_template_def shape0_def shape1_def)

lemma demo_hsv:
  "bgr2hsv_doc (0, 255, 0) = (60, 255, 255)"
  "bgr2hsv_doc (255, 0, 0) = (120, 255, 255)"
  "bgr2hsv_doc (40, 200, 60) = (56, 204, 200)"
  "bgr2hsv_doc (255, 255, 255) = (0, 0, 255)"
  by code_simp+

lemma demo_px:
  "demo_template ! 0 ! 0 = (0, 255, 0)"
  "demo_template ! 0 ! 1 = (255, 0, 0)"
  "demo_template ! 1 ! 0 = (40, 200, 60)"
  "demo_template ! 1 ! 1 = (255, 255, 255)"
  by (simp_all add: demo_template_def)

lemma demo_chroma:
  "in_chroma_range (60, 255, 255)"
  "\<not> in_chroma_range (120, 255, 255)"
  "in_chroma_range (56, 204, 200)"
  "\<not> in_chroma_range (0, 0, 255)"
  by (simp_all add: in_chroma_range_def)

lemma demo_resize:
  "cv2_resize stretch_nearest (Some demo_photo) (shape1 demo_template, shape0 demo_template)
   = Inr [[(0, 0, 255), (0, 0, 255)], [(0, 0, 255), (0, 0, 255)]]"
  by code_simp

lemma demo_mask:
  "chroma_mask bgr2hsv_doc demo_template = [[255, 0], [255, 0]]"
  "chroma_mask_inv bgr2hsv_doc demo_template = [[0, 255], [0, 255]]"
  by code_simp+

lemma demo_kept:
  "cv2_bitwise_and demo_template demo_template [[0, 255], [0, 255]]
   = Inr [[(0, 0, 0), (255, 0, 0)], [(0, 0, 0), (255, 255, 255)]]"
  by code_simp

lemma demo_inserted:
  "cv2_bitwise_and [[(0, 0, 255), (0, 0, 255)], [(0, 0, 255), (0, 0, 255)]]
     [[(0, 0, 255), (0, 0, 255)], [(0, 0, 255), (0, 0, 255)]] [[255, 0], [255, 0]]
   = Inr [[(0, 0, 255), (0, 0, 0)], [(0, 0, 255), (0, 0, 0)]]"
  by code_simp

lemma demo_select:
  "select_image [[255, 0], [255, 0]] demo_template [[(0, 0, 255), (0, 0, 255)], [(0, 0, 255), (0, 0, 255)]]
   = [[(0, 0, 255), (255, 0, 0)], [(0, 0, 255), (255, 255, 255)]]"
  by code_simp

section \<open>Properties of the compositor\<close>

text \<open>
  C1, the pass-through property: for a decoded template and photo, at every position where the
  HSV value of the template pixel lies outside the chroma range, compositing succeeds and its
  output pixel is the template pixel, unchanged.
\<close>

theorem passthrough_outside_chroma:
  assumes "valid_image T" and "valid_image P"
    and "r < shape0 T" and "c < shape1 T"
    and "\<not> in_chroma_range (cv (T ! r ! c))"
  shows "\<exists>out. combine_decoded cv ip (Some P) (Some T) = Inr out \<and> out ! r ! c = T ! r ! c"
  using combine_decoded_px [OF assms(1,2), of cv ip] assms(3,4,5)
  by (auto simp: shape0_def)

text \<open>The property above on the example images.\<close>

theorem passthrough_outside_chroma_witness:
  "valid_image demo_template \<and> valid_image demo_photo \<and> 0 < shape0 demo_template \<and> 1 < shape1 demo_template \<and>
   \<not> in_chroma_range (bgr2hsv_doc (demo_template ! 0 ! 1)) \<and>
   (\<exists>out. combine_decoded bgr2hsv_doc stretch_nearest (Some demo_photo) (Some demo_template) = Inr out \<and>
      out ! 0 ! 1 = (255, 0, 0))"
proof -
  have h: "0 < shape0 demo_template" "1 < shape1 demo_template"
    "\<not> in_chroma_range (bgr2hsv_doc (demo_template ! 0 ! 1))"
    unfolding demo_shape demo_px demo_hsv by (simp_all add: demo_chroma)
  show ?thesis
    using passthrough_outside_chroma [of demo_template demo_photo 0 1 bgr2hsv_doc stretch_nearest, OF demo_valid h] demo_valid h
    unfolding demo_px by simp
qed

text \<open>
  C2, the replacement property: at every position where the HSV value of the template pixel lies
  inside the chroma range, the output pixel is the pixel at that position of the photo resized to
  the template's width and height.
\<close>

theorem replacement_inside_chroma:
  assumes "valid_image T" and "valid_image P"
    and "r < shape0 T" and "c < shape1 T"
    and "in_chroma_range (cv (T ! r ! c))"
  shows "\<exists>out U. combine_decoded cv ip (Some P) (Some T) = Inr out \<and>
           cv2_resize ip (Some P) (shape1 T, shape0 T) = Inr U \<and>
           out ! r ! c = U ! r ! c"
proof -
  obtain out where out: "combine_decoded cv ip (Some P) (Some T) = Inr out"
    "out ! r ! c = ip P (shape1 T, shape0 T) r c"
    using combine_decoded_px [OF assms(1,2), of cv ip] assms(3,4,5) by (auto simp: shape0_def)
  obtain U where U: "cv2_resize ip (Some P) (shape1 T, shape0 T) = Inr U"
    "U ! r ! c = ip P (shape1 T, shape0 T) r c"
    using resize_valid [OF assms(1,2), of ip] assms(3,4) by auto
  show ?thesis using out U by simp
qed

text \<open>The property above on the example images.\<close>

theorem replacement_inside_chroma_witness:
  "valid_image demo_template \<and> valid_image demo_photo \<and> 1 < shape0 demo_template \<and> 0 < shape1 demo_template \<and>
   in_chroma_range (bgr2hsv_doc (demo_template ! 1 ! 0)) \<and>
   (\<exists>out U. combine_decoded bgr2hsv_doc stretch_nearest (Some demo_photo) (Some demo_template) = Inr out \<and>
      cv2_resize stretch_nearest (Some demo_photo) (shape1 demo_template, shape0 demo_template) = Inr U \<and>
      out ! 1 ! 0 = U ! 1 ! 0)"
proof -
  have h: "1 < shape0 demo_template" "0 < shape1 demo_template"
    "in_chroma_range (bgr2hsv_doc (demo_template ! 1 ! 0))"
    unfolding demo_shape demo_px demo_hsv by (simp_all add: demo_chroma)
  show ?thesis
    using replacement_inside_chroma [of demo_template demo_photo 1 0 bgr2hsv_doc stretch_nearest, OF demo_valid h] demo_valid h
    by simp
qed

text \<open>
  C3, the dimension property: whatever the size of the photo, the whole photo is resized to a
  grid of the template's height and width (every pixel of that grid is the interpolation of the
  photo for the template's size), the masks are applied to that resized grid, and the composite,
  which is the select between the resized photo and the template, has the template's height and
  width.
\<close>

theorem composite_dimensions:
  assumes "valid_image T" and "valid_image P"
  shows "\<exists>out U kept inserted.
           cv2_resize ip (Some P) (shape1 T, shape0 T) = Inr U \<and>
           valid_image U \<and> shape0 U = shape0 T \<and> shape1 U = shape1 T \<and>
           (\<forall>r < shape0 T. \<forall>c < shape1 T. U ! r ! c = ip P (shape1 T, shape0 T) r c) \<and>
           cv2_bitwise_and T T (chroma_mask_inv cv T) = Inr kept \<and>
           cv2_bitwise_and U U (chroma_mask cv T) = Inr inserted \<and>
           cv2_add kept inserted = Inr out \<and>
           out = select_image (chroma_mask cv T) T U \<and>
           combine_decoded cv ip (Some P) (Some T) = Inr out \<and>
           valid_image out \<and> shape0 out = shape0 T \<and> shape1 out = shape1 T"
proof -
  obtain U kept inserted where L:
    "cv2_resize ip (Some P) (shape1 T, shape0 T) = Inr U" "map length U = map length T"
    "\<forall>r < shape0 T. \<forall>c < shape1 T. U ! r ! c = ip P (shape1 T, shape0 T) r c"
    "cv2_bitwise_and T T (chroma_mask_inv cv T) = Inr kept"
    "cv2_bitwise_and U U (chroma_mask cv T) = Inr inserted"
    "cv2_add kept inserted = Inr (select_image (chroma_mask cv T) T U)"
    "combine_decoded cv ip (Some P) (Some T) = Inr (select_image (chroma_mask cv T) T U)"
    using combine_decoded_layers [OF assms, of ip cv] by blast
  have lsel: "map length (select_image (chroma_mask cv T) T U) = map length T"
    by (rule select_image_lengths) (simp_all add: map_length_chroma_mask L(2))
  show ?thesis
    using L same_lengths_valid [OF L(2) assms(1)] same_lengths_valid [OF lsel assms(1)]
    by blast
qed

text \<open>The property above on the example images: a photo of one pixel against a template of two
  rows and two columns.\<close>

theorem composite_dimensions_witness:
  "valid_image demo_template \<and> valid_image demo_photo \<and>
   shape0 demo_photo = 1 \<and> shape1 demo_photo = 1 \<and>
   shape0 demo_template = 2 \<and> shape1 demo_template = 2 \<and>
   cv2_resize stretch_nearest (Some demo_photo) (shape1 demo_template, shape0 demo_template)
     = Inr [[(0, 0, 255), (0, 0, 255)], [(0, 0, 255), (0, 0, 255)]] \<and>
   combine_decoded bgr2hsv_doc stretch_nearest (Some demo_photo) (Some demo_template)
     = Inr [[(0, 0, 255), (255, 0, 0)], [(0, 0, 255), (255, 255, 255)]] \<and>
   shape0 ([[(0, 0, 255), (255, 0, 0)], [(0, 0, 255), (255, 255, 255)]] :: image) = 2 \<and>
   shape1 ([[(0, 0, 255), (255, 0, 0)], [(0, 0, 255), (255, 255, 255)]] :: image) = 2"
proof -
  have p: "shape0 demo_photo = 1" "shape1 demo_photo = 1"
    by (simp_all add: demo_photo_def shape0_def shape1_def)
  obtain out U where W:
    "cv2_resize stretch_nearest (Some demo_photo) (shape1 demo_template, shape0 demo_template) = Inr U"
    "out = select_image (chroma_mask bgr2hsv_doc demo_template) demo_template U"
    "combine_decoded bgr2hsv_doc stretch_nearest (Some demo_photo) (Some demo_template) = Inr out"
    "shape0 out = shape0 demo_template" "shape1 out = shape1 demo_template"
    using composite_dimensions [OF demo_valid, of stretch_nearest bgr2hsv_doc] by blast
  have U: "U = [[(0, 0, 255), (0, 0, 255)], [(0, 0, 255), (0, 0, 255)]]"
    using W(1) unfolding demo_resize by simp
  have out: "out = [[(0, 0, 255), (255, 0, 0)], [(0, 0, 255), (255, 255, 255)]]"
    using W(2) unfolding U demo_mask demo_select .
  show ?thesis
    using demo_valid p demo_shape demo_resize W(3,4,5) unfolding out by simp
qed

text \<open>
  C4, the chroma mask: the mask byte at a position is 255 or 0, and it is set exactly when the
  converted pixel has hue in [35, 85], saturation in [100, 255] and value in [100, 255], bounds
  included.
\<close>

theorem chroma_mask_iff:
  assumes "r < shape0 T" and "c < length (T ! r)" and "cv2_cvtColor cv T ! r ! c = (h, s, v)"
  shows "(chroma_mask cv T ! r ! c = 255 \<or> chroma_mask cv T ! r ! c = 0) \<and>
         (chroma_mask cv T ! r ! c \<noteq> 0 \<longleftrightarrow>
            35 \<le> unat h \<and> unat h \<le> 85 \<and> 100 \<le> unat s \<and> unat s \<le> 255 \<and> 100 \<le> unat v \<and> unat v \<le> 255)"
proof -
  have r: "r < length T" using assms(1) by (simp add: shape0_def)
  have hsv: "cv (T ! r ! c) = (h, s, v)"
    using assms(3) r assms(2) by (simp add: cv2_cvtColor_def)
  show ?thesis
    by (simp add: chroma_mask_nth [OF r assms(2)] in_bounds_chroma hsv in_chroma_range_def)
qed

text \<open>The property above on the example images.\<close>

theorem chroma_mask_iff_witness:
  "0 < shape0 demo_template \<and> 0 < length (demo_template ! 0) \<and>
   cv2_cvtColor bgr2hsv_doc demo_template ! 0 ! 0 = (60, 255, 255) \<and>
   chroma_mask bgr2hsv_doc demo_template ! 0 ! 0 = 255 \<and>
   1 < length (demo_template ! 0) \<and>
   cv2_cvtColor bgr2hsv_doc demo_template ! 0 ! 1 = (120, 255, 255) \<and>
   chroma_mask bgr2hsv_doc demo_template ! 0 ! 1 = 0"
proof -
  have s: "0 < shape0 demo_template" by (simp add: demo_shape)
  have l: "0 < length (demo_template ! 0)" "1 < length (demo_template ! 0)"
    by (simp_all add: demo_template_def)
  have c0: "cv2_cvtColor bgr2hsv_doc demo_template ! 0 ! 0 = (60, 255, 255)"
    by (simp add: cv2_cvtColor_def demo_template_def demo_hsv)
  have c1: "cv2_cvtColor bgr2hsv_doc demo_template ! 0 ! 1 = (120, 255, 255)"
    by (simp add: cv2_cvtColor_def demo_template_def demo_hsv)
  show ?thesis
    using chroma_mask_iff [OF s l(1) c0] chroma_mask_iff [OF s l(2) c1] s l c0 c1
    by auto
qed

text \<open>
  C5: the saturating sum of the layer kept from the template and the layer inserted from the
  resized photo is the per-pixel select between photo and template by the chroma mask, and that
  select is what the compositor returns.
\<close>

theorem saturating_add_is_select:
  assumes "valid_image T" and "valid_image P"
    and "cv2_resize ip (Some P) (shape1 T, shape0 T) = Inr U"
    and "cv2_bitwise_and T T (chroma_mask_inv cv T) = Inr kept"
    and "cv2_bitwise_and U U (chroma_mask cv T) = Inr inserted"
  shows "cv2_add kept inserted = Inr (select_image (chroma_mask cv T) T U) \<and>
         combine_decoded cv ip (Some P) (Some T) = Inr (select_image (chroma_mask cv T) T U)"
  using assms by (rule add_layers_select)

text \<open>The property above on the example images.\<close>

theorem saturating_add_is_select_witness:
  "valid_image demo_template \<and> valid_image demo_photo \<and>
   cv2_resize stretch_nearest (Some demo_photo) (shape1 demo_template, shape0 demo_template)
     = Inr [[(0, 0, 255), (0, 0, 255)], [(0, 0, 255), (0, 0, 255)]] \<and>
   cv2_bitwise_and demo_template demo_template (chroma_mask_inv bgr2hsv_doc demo_template)
     = Inr [[(0, 0, 0), (255, 0, 0)], [(0, 0, 0), (255, 255, 255)]] \<and>
   cv2_bitwise_and [[(0, 0, 255), (0, 0, 255)], [(0, 0, 255), (0, 0, 255)]]
       [[(0, 0, 255), (0, 0, 255)], [(0, 0, 255), (0, 0, 255)]] (chroma_mask bgr2hsv_doc demo_template)
     = Inr [[(0, 0, 255), (0, 0, 0)], [(0, 0, 255), (0, 0, 0)]] \<and>
   cv2_add [[(0, 0, 0), (255, 0, 0)], [(0, 0, 0), (255, 255, 255)]]
       [[(0, 0, 255), (0, 0, 0)], [(0, 0, 255), (0, 0, 0)]]
     = Inr [[(0, 0, 255), (255, 0, 0)], [(0, 0, 255), (255, 255, 255)]] \<and>
   combine_decoded bgr2hsv_doc stretch_nearest (Some demo_photo) (Some demo_template)
     = Inr [[(0, 0, 255), (255, 0, 0)], [(0, 0, 255), (255, 255, 255)]]"
proof -
  have k: "cv2_bitwise_and demo_template demo_template (chroma_mask_inv bgr2hsv_doc demo_template)
     = Inr [[(0, 0, 0), (255, 0, 0)], [(0, 0, 0), (255, 255, 255)]]"
    unfolding demo_mask by (rule demo_kept)
  have i: "cv2_bitwise_and [[(0, 0, 255), (0, 0, 255)], [(0, 0, 255), (0, 0, 255)]]
       [[(0, 0, 255), (0, 0, 255)], [(0, 0, 255), (0, 0, 255)]] (chroma_mask bgr2hsv_doc demo_template)
     = Inr [[(0, 0, 255), (0, 0, 0)], [(0, 0, 255), (0, 0, 0)]]"
    unfolding demo_mask by (rule demo_inserted)
  show ?thesis
    using saturating_add_is_select [OF demo_valid demo_resize k i] demo_valid demo_resize k i
    unfolding demo_mask demo_select by simp
qed

text \<open>
  C6, mask disjointness: at every position exactly one of the chroma mask and its inverse is
  set, and at most one of the two masked layers is non-zero there.
\<close>

theorem mask_disjointness:
  assumes "valid_image T" and "r < shape0 T" and "c < shape1 T"
    and "cv2_bitwise_and T T (chroma_mask_inv cv T) = Inr kept"
    and "cv2_bitwise_and U U (chroma_mask cv T) = Inr inserted"
  shows "(chroma_mask cv T ! r ! c \<noteq> 0) \<noteq> (chroma_mask_inv cv T ! r ! c \<noteq> 0) \<and>
         (kept ! r ! c = (0, 0, 0) \<or> inserted ! r ! c = (0, 0, 0))"
proof -
  have r: "r < length T" using assms(2) by (simp add: shape0_def)
  have cT: "c < length (T ! r)" using valid_image_row [OF assms(1) r] assms(3) by simp
  have lU: "map length U = map length T"
    using assms(5) by (simp add: cv2_bitwise_and_def map_length_chroma_mask split: if_splits)
  obtain k where k: "cv2_bitwise_and T T (chroma_mask_inv cv T) = Inr k"
    "\<forall>r < shape0 T. \<forall>c < shape1 T. k ! r ! c = (if in_chroma_range (cv (T ! r ! c)) then (0, 0, 0) else T ! r ! c)"
    using kept_layer [OF assms(1), of cv] by blast
  obtain i where i: "cv2_bitwise_and U U (chroma_mask cv T) = Inr i"
    "\<forall>r < shape0 T. \<forall>c < shape1 T. i ! r ! c = (if in_chroma_range (cv (T ! r ! c)) then U ! r ! c else (0, 0, 0))"
    using inserted_layer [OF assms(1) lU, of cv] by blast
  have kk: "k = kept" and ii: "i = inserted" using k(1) i(1) assms(4,5) by simp_all
  have layers: "kept ! r ! c = (0, 0, 0) \<or> inserted ! r ! c = (0, 0, 0)"
    using k(2) i(2) assms(2,3) kk ii by auto
  have bits: "(chroma_mask cv T ! r ! c \<noteq> 0) \<noteq> (chroma_mask_inv cv T ! r ! c \<noteq> 0)"
    by (simp add: chroma_mask_inv_nth [OF r cT] chroma_mask_nth [OF r cT])
  show ?thesis using layers bits by simp
qed

text \<open>The property above on the example images.\<close>

theorem mask_disjointness_witness:
  "valid_image demo_template \<and> 0 < shape0 demo_template \<and> 1 < shape1 demo_template \<and>
   cv2_bitwise_and demo_template demo_template (chroma_mask_inv bgr2hsv_doc demo_template)
     = Inr [[(0, 0, 0), (255, 0, 0)], [(0, 0, 0), (255, 255, 255)]] \<and>
   cv2_bitwise_and [[(0, 0, 255), (0, 0, 255)], [(0, 0, 255), (0, 0, 255)]]
       [[(0, 0, 255), (0, 0, 255)], [(0, 0, 255), (0, 0, 255)]] (chroma_mask bgr2hsv_doc demo_template)
     = Inr [[(0, 0, 255), (0, 0, 0)], [(0, 0, 255), (0, 0, 0)]] \<and>
   (chroma_mask bgr2hsv_doc demo_template ! 0 ! 1 \<noteq> 0)
     \<noteq> (chroma_mask_inv bgr2hsv_doc demo_template ! 0 ! 1 \<noteq> 0)"
proof -
  have s: "0 < shape0 demo_template" "1 < shape1 demo_template" by (simp_all add: demo_shape)
  have k: "cv2_bitwise_and demo_template demo_template (chroma_mask_inv bgr2hsv_doc demo_template)
     = Inr [[(0, 0, 0), (255, 0, 0)], [(0, 0, 0), (255, 255, 255)]]"
    unfolding demo_mask by (rule demo_kept)
  have i: "cv2_bitwise_and [[(0, 0, 255), (0, 0, 255)], [(0, 0, 255), (0, 0, 255)]]
       [[(0, 0, 255), (0, 0, 255)], [(0, 0, 255), (0, 0, 255)]] (chroma_mask bgr2hsv_doc demo_template)
     = Inr [[(0, 0, 255), (0, 0, 0)], [(0, 0, 255), (0, 0, 0)]]"
    unfolding demo_mask by (rule demo_inserted)
  show ?thesis
    using mask_disjointness [OF demo_valid(1) s k i] demo_valid(1) s k i
    by simp
qed

section \<open>The record store\<close>

lemma query_first_by_name_None:
  "query_first_by_name rows n = None \<longleftrightarrow> (\<forall>m \<in> set rows. Some (model_name m) \<noteq> n)"
  by (cases n) (auto simp: query_first_by_name_def find_None_iff)

lemma query_first_by_name_Some:
  "query_first_by_name rows n = Some m \<Longrightarrow> m \<in> set rows \<and> n = Some (model_name m)"
  by (cases n) (auto simp: query_first_by_name_def find_Some_iff)

lemma query_get_Some: "query_get rows i = Some m \<Longrightarrow> m \<in> set rows \<and> id' m = i"
  by (auto simp: query_get_def find_Some_iff)

lemma fold_max_ge: "a \<le> fold max xs (a :: nat)"
  by (induction xs arbitrary: a) (auto intro: order_trans [OF max.cobounded2])

lemma fold_max_upper: "x \<in> set xs \<Longrightarrow> x \<le> fold max xs (a :: nat)"
proof (induction xs arbitrary: a)
  case Nil
  then show ?case by simp
next
  case (Cons y ys)
  show ?case
  proof (cases "x = y")
    case True
    have "y \<le> max y a" by simp
    also have "\<dots> \<le> fold max ys (max y a)" by (rule fold_max_ge)
    finally show ?thesis using True by simp
  next
    case False
    then show ?thesis using Cons by simp
  qed
qed

lemma next_id_fresh: "next_id rows \<notin> set (map id' rows)"
proof
  assume "next_id rows \<in> set (map id' rows)"
  then have "next_id rows \<le> fold max (map id' rows) 0" by (rule fold_max_upper)
  then show False by (simp add: next_id_def)
qed

lemma distinct_names_unique:
  "distinct (map model_name rows) \<Longrightarrow> m \<in> set rows \<Longrightarrow> m' \<in> set rows \<Longrightarrow>
   model_name m = model_name m' \<Longrightarrow> m = m'"
  by (meson distinct_map inj_onD)

lemma replace_row_ids:
  "id' m2 = i \<Longrightarrow> map id' (map (\<lambda>m. if id' m = i then m2 else m) rows) = map id' rows"
  by (induction rows) auto

lemma replace_row_names:
  assumes "distinct (map id' rows)" and "distinct (map model_name rows)"
    and "\<forall>m \<in> set rows. model_name m = model_name m2 \<longrightarrow> id' m = i"
  shows "distinct (map model_name (map (\<lambda>m. if id' m = i then m2 else m) rows))"
  using assms
proof (induction rows)
  case Nil
  then show ?case by simp
next
  case (Cons m rows)
  have IH: "distinct (map model_name (map (\<lambda>m. if id' m = i then m2 else m) rows))"
    using Cons by simp
  show ?case
  proof (cases "id' m = i")
    case True
    then have noi: "\<forall>m' \<in> set rows. id' m' \<noteq> i" using Cons.prems(1) by (auto simp: image_iff)
    then have same: "map (\<lambda>m. if id' m = i then m2 else m) rows = rows"
      by (induction rows) auto
    have "model_name m2 \<notin> set (map model_name rows)"
      using Cons.prems(3) noi by auto
    then show ?thesis using True same Cons.prems(2) by simp
  next
    case False
    then have ne: "model_name m \<noteq> model_name m2" using Cons.prems(3) by auto
    have "model_name m \<notin> set (map model_name rows)" using Cons.prems(2) by simp
    then have "model_name m \<notin> set (map model_name (map (\<lambda>m. if id' m = i then m2 else m) rows))"
      using ne by (auto simp: image_iff split: if_splits)
    then show ?thesis using False IH by simp
  qed
qed

lemma add_model_inv:
  assumes "store_inv (db s)"
  shows "store_inv (db (snd (add_model L now areq s)))"
proof (cases "add_template_file areq")
  case None
  then show ?thesis using assms by (simp add: add_model_def)
next
  case (Some tf)
  show ?thesis
  proof (cases "add_model_name areq")
    case None
    then show ?thesis using assms Some by (simp add: add_model_def)
  next
    case N: (Some name)
    show ?thesis
    proof (cases "query_first_by_name (db s) (Some name)")
      case None
      then have "name \<notin> set (map model_name (db s))"
        by (auto simp: query_first_by_name_None)
      then show ?thesis
        using assms Some N None next_id_fresh [of "db s"]
        by (simp add: add_model_def Let_def save_file_def write_file_def store_inv_def)
    next
      case (Some e)
      then show ?thesis using assms \<open>add_template_file areq = Some tf\<close> N
        by (simp add: add_model_def)
    qed
  qed
qed

lemma delete_model_inv:
  assumes "store_inv (db s)"
  shows "store_inv (db (snd (delete_model i s)))"
  using assms
  by (cases "query_get (db s) i") (simp_all add: delete_model_def store_inv_def distinct_map_filter)

lemma update_model_inv:
  assumes inv: "store_inv (db s)"
  shows "store_inv (db (snd (update_model i d s)))"
proof (cases d)
  case None
  then show ?thesis using inv by (simp add: update_model_def)
next
  case (Some u)
  show ?thesis
  proof (cases "query_get (db s) i")
    case None
    then show ?thesis using inv Some by (simp add: update_model_def)
  next
    case G: (Some model)
    then have model: "model \<in> set (db s)" "id' model = i" using query_get_Some by blast+
    have ids: "distinct (map id' (db s))" and names: "distinct (map model_name (db s))"
      using inv by (simp_all add: store_inv_def)
    define rejected where "rejected \<longleftrightarrow> truthy (upd_model_name u) \<and>
       (case query_first_by_name (db s) (upd_model_name u) of None \<Rightarrow> False
        | Some existing_model \<Rightarrow> id' existing_model \<noteq> i)"
    define model1 where "model1 = (case upd_model_name u of None \<Rightarrow> model
       | Some n \<Rightarrow> if n \<noteq> [] then model\<lparr>model_name := n\<rparr> else model)"
    define model2 where "model2 = (case upd_template_filename u of None \<Rightarrow> model1
       | Some t \<Rightarrow> if t \<noteq> [] then model1\<lparr>template_filename := t\<rparr> else model1)"
    show ?thesis
    proof (cases rejected)
      case True
      then show ?thesis using inv Some G by (simp add: update_model_def rejected_def)
    next
      case False
      have id2: "id' model2 = i"
        using model(2) by (simp add: model2_def model1_def split: option.splits)
      have name2: "model_name model2 = model_name model1"
        by (simp add: model2_def split: option.splits)
      have uniq: "\<forall>m \<in> set (db s). model_name m = model_name model2 \<longrightarrow> id' m = i"
      proof (intro ballI impI)
        fix m assume m: "m \<in> set (db s)" "model_name m = model_name model2"
        show "id' m = i"
        proof (cases "truthy (upd_model_name u)")
          case T: True
          then obtain n where n: "upd_model_name u = Some n" "n \<noteq> []"
            by (auto simp: truthy_def split: option.splits)
          then have "model_name model2 = n" using name2 by (simp add: model1_def)
          then have "Some (model_name m) = upd_model_name u" using m(2) n by simp
          then have "query_first_by_name (db s) (upd_model_name u) \<noteq> None"
            using m(1) query_first_by_name_None by blast
          then obtain e where e: "query_first_by_name (db s) (upd_model_name u) = Some e" by auto
          then have ei: "id' e = i" using False T by (simp add: rejected_def)
          have "e \<in> set (db s)" "model_name e = n"
            using query_first_by_name_Some [OF e] n by auto
          then have "m = e"
            using distinct_names_unique [OF names m(1)] m(2) \<open>model_name model2 = n\<close> by simp
          then show ?thesis using ei by simp
        next
          case F: False
          then have "model1 = model"
            by (auto simp: truthy_def model1_def split: option.splits)
          then have "model_name m = model_name model" using m(2) name2 by simp
          then have "m = model" using distinct_names_unique [OF names m(1) model(1)] by simp
          then show ?thesis using model(2) by simp
        qed
      qed
      have res: "db (snd (update_model i d s)) = map (\<lambda>m. if id' m = i then model2 else m) (db s)"
        using False Some G
        unfolding update_model_def rejected_def model2_def model1_def
        by (auto simp: Let_def)
      have "distinct (map id' (map (\<lambda>m. if id' m = i then model2 else m) (db s)))"
        unfolding replace_row_ids [OF id2] by (rule ids)
      then show ?thesis
        unfolding res store_inv_def
        using replace_row_names [OF ids names uniq] by blast
    qed
  qed
qed

lemma add_model_rejects:
  assumes "add_model_name areq = Some name" and "name \<in> model_name ` set (db s)"
  shows "add_model L now areq s = ((ErrorJson ''Model already exists'', 400), s)
       \<or> add_model L now areq s = ((ErrorJson ''Model name and template file are required'', 400), s)"
proof -
  have "query_first_by_name (db s) (Some name) \<noteq> None"
    using assms(2) query_first_by_name_None [of "db s" "Some name"] by auto
  then show ?thesis using assms(1)
    by (auto simp: add_model_def split: option.splits)
qed

lemma update_model_rejects:
  assumes names: "distinct (map model_name (db s))"
    and u: "upd_model_name u = Some n" "n \<noteq> []"
    and other: "m \<in> set (db s)" "model_name m = n" "id' m \<noteq> i"
  shows "update_model i (Some u) s = ((ErrorJson ''Model name already exists'', 400), s)
       \<or> update_model i (Some u) s = ((ErrorJson ''Model not found'', 404), s)"
proof (cases "query_get (db s) i")
  case None
  then show ?thesis by (simp add: update_model_def)
next
  case (Some model)
  have "query_first_by_name (db s) (Some n) \<noteq> None"
    using other query_first_by_name_None [of "db s" "Some n"] by auto
  then obtain e where e: "query_first_by_name (db s) (Some n) = Some e" by auto
  then have "e \<in> set (db s)" "model_name e = n" using query_first_by_name_Some [OF e] by auto
  then have "e = m" using distinct_names_unique [OF names _ other(1)] other(2) by simp
  then show ?thesis using e Some u other(3)
    by (simp add: update_model_def truthy_def)
qed

lemma demo_stamp: "strftime_YmdHMS demo_time = ''20240517093012''"
  by (simp add: strftime_YmdHMS_def demo_time_def pad4_def pad2_def digit_def)

lemma demo_state2_inv: "store_inv (db demo_state2)"
  by (simp add: store_inv_def demo_state2_def demo_model_def demo_model2_def)

text \<open>
  C9: the uniqueness of \<^verbatim>\<open>model_name\<close> is an invariant of the record store. From a table with
  distinct keys and distinct names, \<^verbatim>\<open>add_model\<close>, \<^verbatim>\<open>update_model\<close> and \<^verbatim>\<open>delete_model\<close> each leave
  a table with distinct names (and keys); an \<^verbatim>\<open>add_model\<close> with a name already present, and an
  \<^verbatim>\<open>update_model\<close> renaming to the name of another record, are rejected and change nothing.
\<close>

theorem store_uniqueness_invariant:
  assumes "store_inv (db s)"
  shows "distinct (map model_name (db (snd (add_model L now areq s)))) \<and>
         distinct (map model_name (db (snd (update_model i d s)))) \<and>
         distinct (map model_name (db (snd (delete_model j s)))) \<and>
         store_inv (db (snd (add_model L now areq s))) \<and>
         store_inv (db (snd (update_model i d s))) \<and>
         store_inv (db (snd (delete_model j s))) \<and>
         (\<forall>name. add_model_name areq = Some name \<and> name \<in> model_name ` set (db s) \<longrightarrow>
            snd (add_model L now areq s) = s \<and> snd (fst (add_model L now areq s)) = 400) \<and>
         (\<forall>u n. d = Some u \<and> upd_model_name u = Some n \<and> n \<noteq> [] \<and>
                 (\<exists>m \<in> set (db s). model_name m = n \<and> id' m \<noteq> i) \<longrightarrow>
            snd (update_model i d s) = s \<and> snd (fst (update_model i d s)) \<in> {400, 404})"
proof -
  have a: "store_inv (db (snd (add_model L now areq s)))" by (rule add_model_inv [OF assms])
  have u: "store_inv (db (snd (update_model i d s)))" by (rule update_model_inv [OF assms])
  have dl: "store_inv (db (snd (delete_model j s)))" by (rule delete_model_inv [OF assms])
  have names: "distinct (map model_name (db s))" using assms by (simp add: store_inv_def)
  have ra: "\<forall>name. add_model_name areq = Some name \<and> name \<in> model_name ` set (db s) \<longrightarrow>
            snd (add_model L now areq s) = s \<and> snd (fst (add_model L now areq s)) = 400"
    using add_model_rejects [of areq _ s L now] by fastforce
  have ru: "\<forall>u n. d = Some u \<and> upd_model_name u = Some n \<and> n \<noteq> [] \<and>
                 (\<exists>m \<in> set (db s). model_name m = n \<and> id' m \<noteq> i) \<longrightarrow>
            snd (update_model i d s) = s \<and> snd (fst (update_model i d s)) \<in> {400, 404}"
    using update_model_rejects [OF names] by fastforce
  show ?thesis using a u dl ra ru by (simp add: store_inv_def)
qed

text \<open>The invariant on a table of two models: a duplicate add and a clashing rename are
  rejected, a fresh add, a fresh rename and a delete keep the names distinct.\<close>

theorem store_uniqueness_invariant_witness:
  "store_inv (db demo_state2) \<and>
   add_model_name (demo_add ''iPhone'') = Some ''iPhone'' \<and>
   ''iPhone'' \<in> model_name ` set (db demo_state2) \<and>
   snd (add_model demo_libs demo_time (demo_add ''iPhone'') demo_state2) = demo_state2 \<and>
   upd_model_name (demo_rename ''iPhone'') = Some ''iPhone'' \<and>
   (\<exists>m \<in> set (db demo_state2). model_name m = ''iPhone'' \<and> id' m \<noteq> 2) \<and>
   snd (update_model 2 (Some (demo_rename ''iPhone'')) demo_state2) = demo_state2 \<and>
   distinct (map model_name (db (snd (add_model demo_libs demo_time (demo_add ''Nokia'') demo_state2)))) \<and>
   distinct (map model_name (db (snd (update_model 2 (Some (demo_rename ''Nokia'')) demo_state2)))) \<and>
   distinct (map model_name (db (snd (delete_model 1 demo_state2))))"
proof -
  have a: "add_model_name (demo_add ''iPhone'') = Some ''iPhone''"
    by (simp add: demo_add_def)
  have b: "''iPhone'' \<in> model_name ` set (db demo_state2)"
    by (simp add: demo_state2_def demo_model_def)
  have c: "upd_model_name (demo_rename ''iPhone'') = Some ''iPhone''"
    by (simp add: demo_rename_def)
  have d: "\<exists>m \<in> set (db demo_state2). model_name m = ''iPhone'' \<and> id' m \<noteq> 2"
    by (simp add: demo_state2_def demo_model_def)
  show ?thesis
    using store_uniqueness_invariant [OF demo_state2_inv,
        of demo_libs demo_time "demo_add ''iPhone''" 2 "Some (demo_rename ''iPhone'')" 1]
      store_uniqueness_invariant [OF demo_state2_inv,
        of demo_libs demo_time "demo_add ''Nokia''" 2 "Some (demo_rename ''Nokia'')" 1]
      demo_state2_inv a b c d
    by blast
qed

section \<open>The upload handler\<close>

text \<open>
  C10: when the model name of an upload request matches no stored record, \<^verbatim>\<open>upload_image\<close>
  answers with an error of status 400 and the state, files included, is unchanged: neither the
  photo nor a cover is written.
\<close>

theorem upload_unknown_model_writes_nothing:
  assumes "\<forall>m \<in> set (db s). Some (model_name m) \<noteq> req_model req"
  shows "snd (upload_image L now req s) = s \<and>
         (fst (upload_image L now req s) = (ErrorJson ''No image uploaded!'', 400) \<or>
          fst (upload_image L now req s) = (ErrorJson ''Invalid mobile model!'', 400))"
proof -
  have "query_first_by_name (db s) (req_model req) = None"
    using assms by (simp add: query_first_by_name_None)
  then show ?thesis
    by (simp add: upload_image_def split: option.splits)
qed

text \<open>An upload for a model that is not in the table.\<close>

theorem upload_unknown_model_writes_nothing_witness:
  "map model_name (db demo_state) = [''iPhone''] \<and>
   req_model ((demo_upload ''a.png'' [0, 0, 255])\<lparr>req_model := Some ''Nokia''\<rparr>) = Some ''Nokia'' \<and>
   upload_image demo_libs demo_time ((demo_upload ''a.png'' [0, 0, 255])\<lparr>req_model := Some ''Nokia''\<rparr>) demo_state
     = ((ErrorJson ''Invalid mobile model!'', 400), demo_state)"
proof -
  have h: "\<forall>m \<in> set (db demo_state). Some (model_name m) \<noteq> req_model ((demo_upload ''a.png'' [0, 0, 255])\<lparr>req_model := Some ''Nokia''\<rparr>)"
    by (simp add: demo_state_def demo_model_def demo_upload_def)
  have q: "query_first_by_name (db demo_state)
             (req_model ((demo_upload ''a.png'' [0, 0, 255])\<lparr>req_model := Some ''Nokia''\<rparr>)) = None"
    using h by (simp add: query_first_by_name_None)
  have "fst (upload_image demo_libs demo_time ((demo_upload ''a.png'' [0, 0, 255])\<lparr>req_model := Some ''Nokia''\<rparr>) demo_state)
        \<noteq> (ErrorJson ''No image uploaded!'', 400)"
    unfolding upload_image_def q by (simp add: demo_upload_def)
  moreover have "map model_name (db demo_state) = [''iPhone'']"
    by (simp add: demo_state_def demo_model_def)
  moreover have "req_model ((demo_upload ''a.png'' [0, 0, 255])\<lparr>req_model := Some ''Nokia''\<rparr>) = Some ''Nokia''"
    by simp
  ultimately show ?thesis
    using upload_unknown_model_writes_nothing [OF h, of demo_libs demo_time]
    by (metis prod.collapse)
qed

section \<open>Writing files\<close>

lemma dirs_write_file: "dirs (write_file p b s) = dirs s"
  by (simp add: write_file_def)

lemma can_write_write_file: "can_write (write_file p b s) q = can_write s q"
  by (simp add: can_write_def is_dir_def dirs_write_file)

lemma save_file_Inr: "save_file p b s = Inr s1 \<Longrightarrow> s1 = write_file p b s"
  by (simp add: save_file_def split: if_splits)

lemma process_image_save_fails:
  assumes "\<not> can_write s (upload_filepath L image')"
  shows "process_image L now image' mobile_model s = ((ErrorException OSError, 500), s)"
  using assms by (simp add: process_image_def save_file_def)

lemma demo_can_write:
  "can_write demo_state ''uploads/a.png''"
  "can_write demo_state ''uploads/b.png''"
  "can_write demo_state ''generated_covers/iPhone_20240517093012.png''"
  "can_write demo_state_bad ''uploads/a.png''"
  by code_simp+

section \<open>Images that do not decode\<close>

lemma combine_images_undecodable:
  assumes "cv2_imread L fs template_path = None \<or> cv2_imread L fs user_image_path = None"
  shows "combine_images L fs user_image_path template_path
         = Inl (if cv2_imread L fs template_path = None then AttributeError else CvError)"
proof (cases "cv2_imread L fs template_path")
  case None
  then show ?thesis by (simp add: combine_images_def combine_decoded_def)
next
  case (Some T)
  then have "cv2_imread L fs user_image_path = None" using assms by simp
  then show ?thesis using Some
    by (simp add: combine_images_def combine_decoded_def cv2_resize_def)
qed

lemma process_image_failed:
  assumes "save_file (upload_filepath L image') (content image') s = Inr s1"
    and "combine_images L (files s1) (upload_filepath L image') (cover_template_path mobile_model) = Inl e"
  shows "process_image L now image' mobile_model s
         = ((if \<not> os_path_exists s1 (cover_template_path mobile_model)
             then ErrorJson ''Mobile cover template not found!'' else ErrorProcessing e, 500), s1)"
  unfolding process_image_def Let_def assms(1) by (simp add: assms(2))

lemma demo_bad_paths:
  "upload_filepath demo_libs \<lparr>filename = ''a.png'', content = [0, 0, 255]\<rparr> = ''uploads/a.png''"
  "cover_template_path demo_model = ''cover_templates/iphone.png''"
  by (simp_all add: upload_filepath_def cover_template_path_def os_path_join_def demo_libs_def
        demo_model_def UPLOAD_FOLDER_def COVER_TEMPLATES_FOLDER_def)

lemma demo_bad_save:
  "save_file ''uploads/a.png'' [0, 0, 255] demo_state_bad
   = Inr (write_file ''uploads/a.png'' [0, 0, 255] demo_state_bad)"
  by (simp add: save_file_def demo_can_write)

lemma demo_bad_read:
  "cv2_imread demo_libs (files (write_file ''uploads/a.png'' [0, 0, 255] demo_state_bad))
     ''cover_templates/iphone.png'' = None"
  by (simp add: cv2_imread_def write_file_def demo_state_bad_def demo_libs_def demo_decode_def)

text \<open>
  C7 as stated has the compositor fail with \<open>DecodeError\<close>. On a template file that is empty,
  \<^verbatim>\<open>cv2.imread\<close> returns \<^verbatim>\<open>None\<close> and \<^verbatim>\<open>_combine_images\<close> raises \<^verbatim>\<open>AttributeError\<close> at the read of
  \<^verbatim>\<open>.shape\<close>: the failure is not a \<open>DecodeError\<close>.
\<close>

theorem decode_failure_is_not_DecodeError:
  "cv2_imread demo_libs (files (write_file ''uploads/a.png'' [0, 0, 255] demo_state_bad))
     ''cover_templates/iphone.png'' = None \<and>
   combine_images demo_libs (files (write_file ''uploads/a.png'' [0, 0, 255] demo_state_bad))
     ''uploads/a.png'' ''cover_templates/iphone.png'' = Inl AttributeError \<and>
   combine_images demo_libs (files (write_file ''uploads/a.png'' [0, 0, 255] demo_state_bad))
     ''uploads/a.png'' ''cover_templates/iphone.png'' \<noteq> Inl DecodeError"
proof -
  let ?fs = "files (write_file ''uploads/a.png'' [0, 0, 255] demo_state_bad)"
  have "combine_images demo_libs ?fs ''uploads/a.png'' ''cover_templates/iphone.png'' = Inl AttributeError"
    using combine_images_undecodable [of demo_libs ?fs "''cover_templates/iphone.png''" "''uploads/a.png''"]
    unfolding demo_bad_read by simp
  then show ?thesis using demo_bad_read by simp
qed

text \<open>
  C7, amended: when the template or the photo does not decode (\<^verbatim>\<open>cv2.imread\<close> returns \<^verbatim>\<open>None\<close>),
  \<^verbatim>\<open>_combine_images\<close> raises before any pixel operation, \<^verbatim>\<open>AttributeError\<close> at the read of
  \<^verbatim>\<open>.shape\<close> when the template did not decode and otherwise \<^verbatim>\<open>cv2.error\<close> in \<^verbatim>\<open>cv2.resize\<close>, and
  returns no image; \<^verbatim>\<open>_process_image\<close>, once the upload is saved, then answers with status 500,
  sends no file, and leaves the state as it was after the upload was saved: no cover is
  written.
\<close>

theorem decode_failure_no_output:
  assumes "cv2_imread L fs template_path = None \<or> cv2_imread L fs user_image_path = None"
  shows "combine_images L fs user_image_path template_path
           = Inl (if cv2_imread L fs template_path = None then AttributeError else CvError) \<and>
         (\<forall>now image' mobile_model s s1.
            save_file (upload_filepath L image') (content image') s = Inr s1 \<and>
            fs = files s1 \<and>
            user_image_path = upload_filepath L image' \<and>
            template_path = cover_template_path mobile_model \<longrightarrow>
            snd (process_image L now image' mobile_model s) = s1 \<and>
            s1 = write_file (upload_filepath L image') (content image') s \<and>
            snd (fst (process_image L now image' mobile_model s)) = 500 \<and>
            (\<forall>p. fst (fst (process_image L now image' mobile_model s)) \<noteq> File p))"
proof (intro conjI allI impI)
  show c: "combine_images L fs user_image_path template_path
           = Inl (if cv2_imread L fs template_path = None then AttributeError else CvError)"
    by (rule combine_images_undecodable [OF assms])
  fix now image' mobile_model s s1 p
  assume h: "save_file (upload_filepath L image') (content image') s = Inr s1 \<and>
            fs = files s1 \<and>
            user_image_path = upload_filepath L image' \<and>
            template_path = cover_template_path mobile_model"
  then have sv: "save_file (upload_filepath L image') (content image') s = Inr s1" by simp
  have "combine_images L (files s1) (upload_filepath L image') (cover_template_path mobile_model)
        = Inl (if cv2_imread L fs template_path = None then AttributeError else CvError)"
    using c h by simp
  note p = process_image_failed [OF sv this, of now]
  show "snd (process_image L now image' mobile_model s) = s1"
    by (simp only: p snd_conv)
  show "s1 = write_file (upload_filepath L image') (content image') s"
    by (rule save_file_Inr [OF sv])
  show "snd (fst (process_image L now image' mobile_model s)) = 500"
    by (simp only: p fst_conv snd_conv)
  show "fst (fst (process_image L now image' mobile_model s)) \<noteq> File p"
    by (simp only: p fst_conv) (simp split: if_splits)
qed

text \<open>An upload against a template file that is empty.\<close>

theorem decode_failure_no_output_witness:
  "cv2_imread demo_libs (files (write_file ''uploads/a.png'' [0, 0, 255] demo_state_bad))
     ''cover_templates/iphone.png'' = None \<and>
   save_file ''uploads/a.png'' [0, 0, 255] demo_state_bad
     = Inr (write_file ''uploads/a.png'' [0, 0, 255] demo_state_bad) \<and>
   combine_images demo_libs (files (write_file ''uploads/a.png'' [0, 0, 255] demo_state_bad))
     ''uploads/a.png'' ''cover_templates/iphone.png'' = Inl AttributeError \<and>
   snd (process_image demo_libs demo_time \<lparr>filename = ''a.png'', content = [0, 0, 255]\<rparr> demo_model demo_state_bad)
     = write_file ''uploads/a.png'' [0, 0, 255] demo_state_bad \<and>
   snd (fst (process_image demo_libs demo_time \<lparr>filename = ''a.png'', content = [0, 0, 255]\<rparr> demo_model demo_state_bad))
     = 500"
proof -
  let ?img = "\<lparr>filename = ''a.png'', content = [0, 0, 255]\<rparr>"
  let ?s1 = "write_file ''uploads/a.png'' [0, 0, 255] demo_state_bad"
  let ?fs = "files ?s1"
  have r: "cv2_imread demo_libs ?fs ''cover_templates/iphone.png'' = None
         \<or> cv2_imread demo_libs ?fs ''uploads/a.png'' = None"
    using demo_bad_read by (rule disjI1)
  note T = decode_failure_no_output [OF r]
  have c: "combine_images demo_libs ?fs ''uploads/a.png'' ''cover_templates/iphone.png'' = Inl AttributeError"
    using T [THEN conjunct1] unfolding demo_bad_read by simp
  have p: "save_file (upload_filepath demo_libs ?img) (content ?img) demo_state_bad = Inr ?s1 \<and>
      ?fs = files ?s1 \<and>
      ''uploads/a.png'' = upload_filepath demo_libs ?img \<and>
      ''cover_templates/iphone.png'' = cover_template_path demo_model"
    unfolding demo_bad_paths using demo_bad_save by simp
  note Q = T [THEN conjunct2, rule_format, OF p, of demo_time]
  have q1: "snd (process_image demo_libs demo_time ?img demo_model demo_state_bad) = ?s1"
    using Q [THEN conjunct1] .
  have q2: "snd (fst (process_image demo_libs demo_time ?img demo_model demo_state_bad)) = 500"
    using Q [THEN conjunct2, THEN conjunct2, THEN conjunct1] .
  show ?thesis using demo_bad_read demo_bad_save c q1 q2 by (intro conjI)
qed

section \<open>Names of the generated covers\<close>

lemma upload_image_ok:
  assumes "req_image req = Some img"
    and "query_first_by_name (db s) (req_model req) = Some mm"
    and "filename img \<noteq> []"
    and "can_write s (upload_filepath L img)"
    and "can_write s (generated_cover_path mm now)"
    and "files (write_file (upload_filepath L img) (content img) s) (cover_template_path mm) = Some tb"
    and "combine_decoded (cvtColor_px L) (resize_px L) (imdecode L (content img)) (imdecode L tb) = Inr out"
  shows "upload_image L now req s
         = ((File (generated_cover_path mm now), 200),
            write_file (generated_cover_path mm now) (imencode L out)
              (write_file (upload_filepath L img) (content img) s))"
proof -
  let ?s1 = "write_file (upload_filepath L img) (content img) s"
  let ?s2 = "write_file (generated_cover_path mm now) (imencode L out) ?s1"
  have sv: "save_file (upload_filepath L img) (content img) s = Inr ?s1"
    by (simp add: save_file_def assms(4))
  have ex: "os_path_exists ?s1 (cover_template_path mm)"
    by (simp add: os_path_exists_def assms(6))
  have u: "cv2_imread L (files ?s1) (upload_filepath L img) = imdecode L (content img)"
    by (simp add: cv2_imread_def write_file_def)
  have t: "cv2_imread L (files ?s1) (cover_template_path mm) = imdecode L tb"
    by (simp add: cv2_imread_def assms(6))
  have c: "combine_images L (files ?s1) (upload_filepath L img) (cover_template_path mm) = Inr out"
    unfolding combine_images_def Let_def u t by (rule assms(7))
  have w: "cv2_imwrite L (generated_cover_path mm now) out ?s1 = ?s2"
    by (simp add: cv2_imwrite_def can_write_write_file assms(5))
  have sf: "send_file (generated_cover_path mm now) ?s2 = (File (generated_cover_path mm now), 200)"
    by (simp add: send_file_def write_file_def)
  have p: "process_image L now img mm s = ((File (generated_cover_path mm now), 200), ?s2)"
    unfolding process_image_def Let_def sv by (simp add: ex c w sf)
  show ?thesis
    by (simp add: upload_image_def assms(1,2,3) p)
qed

lemma demo_paths:
  "upload_filepath demo_libs \<lparr>filename = ''a.png'', content = ca\<rparr> = ''uploads/a.png''"
  "upload_filepath demo_libs \<lparr>filename = ''b.png'', content = cb\<rparr> = ''uploads/b.png''"
  "cover_template_path demo_model = ''cover_templates/iphone.png''"
  by (simp_all add: upload_filepath_def cover_template_path_def os_path_join_def demo_libs_def
        demo_model_def UPLOAD_FOLDER_def COVER_TEMPLATES_FOLDER_def)

lemma demo_generated_path:
  "generated_cover_path demo_model demo_time = ''generated_covers/iPhone_20240517093012.png''"
  "generated_cover_path demo_model (demo_time\<lparr>microsecond := 500000\<rparr>) = ''generated_covers/iPhone_20240517093012.png''"
  using demo_stamp
  by (simp_all add: generated_cover_path_def generated_cover_filename_def os_path_join_def
        GENERATED_COVERS_FOLDER_def demo_model_def strftime_YmdHMS_def)

lemma demo_decoded:
  "imdecode demo_libs [0, 255, 0] = Some [[(0, 255, 0)]]"
  "imdecode demo_libs [0, 0, 255] = Some [[(0, 0, 255)]]"
  "imdecode demo_libs [255, 0, 0] = Some [[(255, 0, 0)]]"
  by (simp_all add: demo_libs_def demo_decode_def)

lemma demo_composites:
  "combine_decoded bgr2hsv_doc stretch_nearest (Some [[(0, 0, 255)]]) (Some [[(0, 255, 0)]]) = Inr [[(0, 0, 255)]]"
  "combine_decoded bgr2hsv_doc stretch_nearest (Some [[(255, 0, 0)]]) (Some [[(0, 255, 0)]]) = Inr [[(255, 0, 0)]]"
  by code_simp+

lemma demo_encoded:
  "imencode demo_libs [[(0, 0, 255)]] = [0, 0, 255]"
  "imencode demo_libs [[(255, 0, 0)]] = [255, 0, 0]"
  by (simp_all add: demo_libs_def demo_encode_def)

lemma generated_cover_filename_eq_iff:
  "generated_cover_filename m1 t1 = generated_cover_filename m2 t2 \<longleftrightarrow>
   model_name m1 = model_name m2 \<and> strftime_YmdHMS t1 = strftime_YmdHMS t2"
proof -
  have l: "length (''_'' @ strftime_YmdHMS t1 @ ''.png'') = length (''_'' @ strftime_YmdHMS t2 @ ''.png'')"
    by (simp add: strftime_YmdHMS_def pad4_def pad2_def)
  show ?thesis
    unfolding generated_cover_filename_def using l by auto
qed

text \<open>
  C8 asks that two distinct upload requests never get the same generated file name. The stamp
  in the name stops at the second: two different requests for the same model, handled at two
  instants of the same second, get the same name, and the cover of the second request replaces
  the cover of the first.
\<close>

theorem same_second_uploads_collide:
  "demo_time \<noteq> demo_time\<lparr>microsecond := 500000\<rparr> \<and>
   demo_upload ''a.png'' [0, 0, 255] \<noteq> demo_upload ''b.png'' [255, 0, 0] \<and>
   generated_cover_filename demo_model demo_time
     = generated_cover_filename demo_model (demo_time\<lparr>microsecond := 500000\<rparr>) \<and>
   upload_image demo_libs demo_time (demo_upload ''a.png'' [0, 0, 255]) demo_state
     = ((File ''generated_covers/iPhone_20240517093012.png'', 200),
        write_file ''generated_covers/iPhone_20240517093012.png'' [0, 0, 255]
          (write_file ''uploads/a.png'' [0, 0, 255] demo_state)) \<and>
   upload_image demo_libs (demo_time\<lparr>microsecond := 500000\<rparr>) (demo_upload ''b.png'' [255, 0, 0])
       (write_file ''generated_covers/iPhone_20240517093012.png'' [0, 0, 255]
          (write_file ''uploads/a.png'' [0, 0, 255] demo_state))
     = ((File ''generated_covers/iPhone_20240517093012.png'', 200),
        write_file ''generated_covers/iPhone_20240517093012.png'' [255, 0, 0]
          (write_file ''uploads/b.png'' [255, 0, 0]
            (write_file ''generated_covers/iPhone_20240517093012.png'' [0, 0, 255]
              (write_file ''uploads/a.png'' [0, 0, 255] demo_state)))) \<and>
   files (write_file ''generated_covers/iPhone_20240517093012.png'' [255, 0, 0]
          (write_file ''uploads/b.png'' [255, 0, 0]
            (write_file ''generated_covers/iPhone_20240517093012.png'' [0, 0, 255]
              (write_file ''uploads/a.png'' [0, 0, 255] demo_state))))
     ''generated_covers/iPhone_20240517093012.png'' = Some [255, 0, 0]"
proof -
  let ?sa = "write_file ''generated_covers/iPhone_20240517093012.png'' [0, 0, 255]
          (write_file ''uploads/a.png'' [0, 0, 255] demo_state)"
  have t: "demo_time \<noteq> demo_time\<lparr>microsecond := 500000\<rparr>"
    by (simp add: demo_time_def)
  have r: "demo_upload ''a.png'' [0, 0, 255] \<noteq> demo_upload ''b.png'' [255, 0, 0]"
    by (simp add: demo_upload_def)
  have f: "generated_cover_filename demo_model demo_time
     = generated_cover_filename demo_model (demo_time\<lparr>microsecond := 500000\<rparr>)"
    by (simp add: generated_cover_filename_def strftime_YmdHMS_def)
  have qa: "query_first_by_name (db demo_state) (req_model (demo_upload ''a.png'' [0, 0, 255])) = Some demo_model"
    by (simp add: query_first_by_name_def demo_state_def demo_upload_def demo_model_def)
  have qb: "query_first_by_name (db ?sa) (req_model (demo_upload ''b.png'' [255, 0, 0])) = Some demo_model"
    by (simp add: query_first_by_name_def demo_state_def demo_upload_def demo_model_def write_file_def)
  have wa: "can_write demo_state (upload_filepath demo_libs \<lparr>filename = ''a.png'', content = [0, 0, 255]\<rparr>)"
    unfolding demo_paths by (rule demo_can_write)
  have ga: "can_write demo_state (generated_cover_path demo_model demo_time)"
    unfolding demo_generated_path by (rule demo_can_write)
  have wb: "can_write ?sa (upload_filepath demo_libs \<lparr>filename = ''b.png'', content = [255, 0, 0]\<rparr>)"
    unfolding demo_paths can_write_write_file by (rule demo_can_write)
  have gb: "can_write ?sa (generated_cover_path demo_model (demo_time\<lparr>microsecond := 500000\<rparr>))"
    unfolding demo_generated_path can_write_write_file by (rule demo_can_write)
  have ta: "files (write_file (upload_filepath demo_libs \<lparr>filename = ''a.png'', content = [0, 0, 255]\<rparr>)
               (content \<lparr>filename = ''a.png'', content = [0, 0, 255]\<rparr>) demo_state)
             (cover_template_path demo_model) = Some [0, 255, 0]"
    unfolding demo_paths by (simp add: write_file_def demo_state_def)
  have tb: "files (write_file (upload_filepath demo_libs \<lparr>filename = ''b.png'', content = [255, 0, 0]\<rparr>)
               (content \<lparr>filename = ''b.png'', content = [255, 0, 0]\<rparr>) ?sa)
             (cover_template_path demo_model) = Some [0, 255, 0]"
    unfolding demo_paths by (simp add: write_file_def demo_state_def)
  have ca: "combine_decoded (cvtColor_px demo_libs) (resize_px demo_libs)
              (imdecode demo_libs (content \<lparr>filename = ''a.png'', content = [0, 0, 255]\<rparr>))
              (imdecode demo_libs [0, 255, 0]) = Inr [[(0, 0, 255)]]"
    using demo_composites(1) by (simp add: demo_decoded) (simp add: demo_libs_def)
  have cb: "combine_decoded (cvtColor_px demo_libs) (resize_px demo_libs)
              (imdecode demo_libs (content \<lparr>filename = ''b.png'', content = [255, 0, 0]\<rparr>))
              (imdecode demo_libs [0, 255, 0]) = Inr [[(255, 0, 0)]]"
    using demo_composites(2) by (simp add: demo_decoded) (simp add: demo_libs_def)
  have a: "upload_image demo_libs demo_time (demo_upload ''a.png'' [0, 0, 255]) demo_state
     = ((File ''generated_covers/iPhone_20240517093012.png'', 200), ?sa)"
    using upload_image_ok [OF _ qa _ wa ga ta ca]
    by (simp add: demo_upload_def demo_paths demo_generated_path demo_encoded)
  have b: "upload_image demo_libs (demo_time\<lparr>microsecond := 500000\<rparr>) (demo_upload ''b.png'' [255, 0, 0]) ?sa
     = ((File ''generated_covers/iPhone_20240517093012.png'', 200),
        write_file ''generated_covers/iPhone_20240517093012.png'' [255, 0, 0]
          (write_file ''uploads/b.png'' [255, 0, 0] ?sa))"
    using upload_image_ok [OF _ qb _ wb gb tb cb]
    by (simp add: demo_upload_def demo_paths demo_generated_path demo_encoded)
  have g: "files (write_file ''generated_covers/iPhone_20240517093012.png'' [255, 0, 0]
          (write_file ''uploads/b.png'' [255, 0, 0] ?sa))
     ''generated_covers/iPhone_20240517093012.png'' = Some [255, 0, 0]"
    by (simp add: write_file_def)
  show ?thesis using t r f a b g by (intro conjI)
qed

end
